theory Spec2Isabelle
  imports Main "HOL-Library.Word"
begin

unbundle bit_operations_syntax

section \<open>Build configuration, results and kernel state\<close>

text \<open>
  The two preprocessor switches that ssdfs_inline.h tests. Every function of the model
  takes the configuration as its first argument; an \<open>#ifdef\<close> block of the source is an
  \<open>if\<close> on the corresponding field.
\<close>

record config =
  CONFIG_SSDFS_DEBUG :: bool
  CONFIG_SSDFS_MEMORY_LEAKS_ACCOUNTING :: bool

text \<open>
  Constants that ssdfs_inline.h uses and that are declared in include/linux/ssdfs_fs.h,
  a header that is not among the sources. They are parameters of the model.
\<close>

record ssdfs_consts =
  SSDFS_SUPER_MAGIC :: "32 word"
  SSDFS_MAJOR_REVISION :: int
  SSDFS_MINOR_REVISION :: int
  SSDFS_CRC32 :: "16 word"

text \<open>The error codes the functions return (as negative errno values in C).\<close>

datatype errno = ENOMEM | E2BIG | EINVAL | ERANGE

text \<open>
  A call either returns, or stops the kernel: \<open>BUG\<close> is a \<open>BUG_ON\<close> that fired,
  \<open>Oops\<close> is a memory fault (the dereference of a NULL or error pointer, an access
  beyond an array).
\<close>

datatype 'a outcome = Returns 'a | BUG | Oops

text \<open>The printk levels behind SSDFS_CRIT, SSDFS_ERR, SSDFS_WARN, SSDFS_NOTICE and SSDFS_INFO.
  SSDFS_DBG prints nothing that the model records.\<close>

datatype loglevel = CRIT | ERR | WARN | NOTICE | INFO

text \<open>
  The state of the kernel that the inline functions read and write.
  Memory is flat and byte addressed; an access outside a buffer reads or writes the
  neighbouring bytes. A page is known by the number of its page frame.
  \<open>page_ref\<close> is \<open>page->_refcount\<close> (an \<open>atomic_t\<close>), \<open>page_locked\<close> the PG_locked flag.
  \<open>free_list\<close> are the frames held by the page allocator, \<open>kheap\<close> the live kmalloc blocks.
  The counters are the \<open>atomic64_t\<close> variables of the leak accounting; the last three are
  the per-subsystem families \<open>ssdfs_<name>_page_leaks\<close>, \<open>ssdfs_<name>_memory_leaks\<close> and
  \<open>ssdfs_<name>_cache_leaks\<close>, indexed by the subsystem's name.
\<close>

record kstate =
  mem :: "nat \<Rightarrow> 8 word"
  page_ref :: "nat \<Rightarrow> 32 word"
  page_locked :: "nat \<Rightarrow> bool"
  free_list :: "nat list"
  kheap :: "nat set"
  ssdfs_allocated_pages :: "64 word"
  ssdfs_memory_leaks :: "64 word"
  ssdfs_locked_pages :: "64 word"
  ssdfs_name_page_leaks :: "string \<Rightarrow> 64 word"
  ssdfs_name_memory_leaks :: "string \<Rightarrow> 64 word"
  ssdfs_name_cache_leaks :: "string \<Rightarrow> 64 word"
  klog :: "loglevel list"

definition printk :: "loglevel \<Rightarrow> kstate \<Rightarrow> kstate" where
  "printk l st = st\<lparr>klog := klog st @ [l]\<rparr>"

section \<open>Magic and version validation\<close>

text \<open>
  \<open>struct ssdfs_signature\<close>: \<open>common\<close> holds the value \<open>le32_to_cpu\<close> reads from the
  field, \<open>major\<close> and \<open>minor\<close> are the two bytes of \<open>version\<close>.
\<close>

record ssdfs_signature =
  common :: "32 word"
  key :: "16 word"
  major :: "8 word"
  minor :: "8 word"

definition is_ssdfs_magic_valid ::
  "config \<Rightarrow> ssdfs_consts \<Rightarrow> ssdfs_signature option \<Rightarrow> kstate \<Rightarrow> (bool \<times> kstate) outcome" where
  "is_ssdfs_magic_valid cfg c magic st =
     (case magic of
        None \<Rightarrow> if CONFIG_SSDFS_DEBUG cfg then BUG else Oops
      | Some m \<Rightarrow>
          if common m \<noteq> SSDFS_SUPER_MAGIC c then Returns (False, st)
          else if uint (major m) > SSDFS_MAJOR_REVISION c \<or>
                  uint (minor m) > SSDFS_MINOR_REVISION c
          then Returns (False, printk INFO st)
          else Returns (True, st))"

section \<open>Kernel primitives for pages\<close>

text \<open>
  The functions of this section belong to the Linux kernel, not to the repository; they are
  written down from the kernel's own definitions (include/linux/mm.h, mm/page_alloc.c,
  include/linux/pagevec.h) so that the inline functions that call them can be run.
  The kernel's optional VM debugging assertions are not part of the model.
\<close>

text \<open>A pointer as the C code tests it: NULL, an error code packed by \<open>ERR_PTR\<close>, or the
  address of an object.\<close>

datatype 'a ptr = NULL | ERR_PTR errno | Ptr 'a

fun IS_ERR_OR_NULL :: "'a ptr \<Rightarrow> bool" where
  "IS_ERR_OR_NULL NULL = True"
| "IS_ERR_OR_NULL (ERR_PTR e) = True"
| "IS_ERR_OR_NULL (Ptr p) = False"

definition PAGE_SIZE :: nat where
  "PAGE_SIZE = 4096"

text \<open>The address at which \<open>kmap_local_page\<close> makes the frame's bytes visible.\<close>

definition page_address :: "nat \<Rightarrow> nat" where
  "page_address p = p * PAGE_SIZE"

definition GFP_KERNEL :: "32 word" where
  "GFP_KERNEL = 0xCC0"

text \<open>The flag \<open>__GFP_ZERO\<close>.\<close>

definition GFP_ZERO :: "32 word" where
  "GFP_ZERO = 0x100"

definition memset :: "(nat \<Rightarrow> 8 word) \<Rightarrow> nat \<Rightarrow> 8 word \<Rightarrow> nat \<Rightarrow> (nat \<Rightarrow> 8 word)" where
  "memset m d v n = (\<lambda>a. if d \<le> a \<and> a < d + n then v else m a)"

text \<open>\<open>memcpy\<close> copies byte by byte from the low address up (C leaves overlapping
  ranges undefined); \<open>memmove\<close> copies as if through a temporary buffer.\<close>

fun memcpy :: "(nat \<Rightarrow> 8 word) \<Rightarrow> nat \<Rightarrow> nat \<Rightarrow> nat \<Rightarrow> (nat \<Rightarrow> 8 word)" where
  "memcpy m d s 0 = m"
| "memcpy m d s (Suc n) = memcpy (m(d := m s)) (Suc d) (Suc s) n"

definition memmove :: "(nat \<Rightarrow> 8 word) \<Rightarrow> nat \<Rightarrow> nat \<Rightarrow> nat \<Rightarrow> (nat \<Rightarrow> 8 word)" where
  "memmove m d s n = (\<lambda>a. if d \<le> a \<and> a < d + n then m (s + (a - d)) else m a)"

text \<open>\<open>alloc_page\<close>: NULL when the allocator has no frame; otherwise the frame leaves the
  allocator with its reference count set to 1 (\<open>set_page_refcounted\<close>) and, under
  \<open>__GFP_ZERO\<close>, with its bytes cleared.\<close>

definition alloc_page :: "32 word \<Rightarrow> kstate \<Rightarrow> nat option \<times> kstate" where
  "alloc_page gfp_mask st =
     (case free_list st of
        [] \<Rightarrow> (None, st)
      | p # ps \<Rightarrow>
          (Some p,
           st\<lparr>free_list := ps,
              page_ref := (page_ref st)(p := 1),
              mem := (if gfp_mask AND GFP_ZERO \<noteq> 0
                      then memset (mem st) (page_address p) 0 PAGE_SIZE
                      else mem st)\<rparr>))"

definition get_page :: "nat \<Rightarrow> kstate \<Rightarrow> kstate" where
  "get_page p st = st\<lparr>page_ref := (page_ref st)(p := page_ref st p + 1)\<rparr>"

text \<open>\<open>put_page_testzero\<close>: drop one reference and tell whether the count reached zero.\<close>

definition put_page_testzero :: "nat \<Rightarrow> kstate \<Rightarrow> bool \<times> kstate" where
  "put_page_testzero p st =
     (page_ref st p - 1 = 0, st\<lparr>page_ref := (page_ref st)(p := page_ref st p - 1)\<rparr>)"

text \<open>\<open>free_the_page\<close>: the frame goes back to the allocator.\<close>

definition free_the_page :: "nat \<Rightarrow> kstate \<Rightarrow> kstate" where
  "free_the_page p st = st\<lparr>free_list := p # free_list st\<rparr>"

text \<open>\<open>put_page\<close> and \<open>__free_pages(page, 0)\<close> both read
  \<open>if (put_page_testzero(page)) free_the_page(page, 0);\<close> in the kernel.\<close>

definition put_page :: "nat \<Rightarrow> kstate \<Rightarrow> kstate" where
  "put_page p st =
     (case put_page_testzero p st of
        (True, st1) \<Rightarrow> free_the_page p st1
      | (False, st1) \<Rightarrow> st1)"

definition free_pages_order0 :: "nat \<Rightarrow> kstate \<Rightarrow> kstate" where
  "free_pages_order0 p st =
     (case put_page_testzero p st of
        (True, st1) \<Rightarrow> free_the_page p st1
      | (False, st1) \<Rightarrow> st1)"

text \<open>\<open>kfree\<close> and \<open>kvfree\<close> of a non-NULL block.\<close>

definition kfree :: "nat \<Rightarrow> kstate \<Rightarrow> kstate" where
  "kfree kaddr st = st\<lparr>kheap := kheap st - {kaddr}\<rparr>"

definition kvfree :: "nat \<Rightarrow> kstate \<Rightarrow> kstate" where
  "kvfree kaddr st = st\<lparr>kheap := kheap st - {kaddr}\<rparr>"

text \<open>\<open>struct pagevec\<close>: \<open>nr\<close> is an \<open>unsigned char\<close>, \<open>pages\<close> the array of
  \<open>PAGEVEC_SIZE\<close> page pointers.\<close>

record pagevec =
  nr :: "8 word"
  pages :: "nat ptr list"

definition PAGEVEC_SIZE :: nat where
  "PAGEVEC_SIZE = 15"

definition pagevec_wf :: "pagevec \<Rightarrow> bool" where
  "pagevec_wf pv = (length (pages pv) = PAGEVEC_SIZE \<and> unat (nr pv) \<le> PAGEVEC_SIZE)"

definition pagevec_count :: "pagevec \<Rightarrow> 32 word" where
  "pagevec_count pv = ucast (nr pv)"

definition pagevec_space :: "pagevec \<Rightarrow> 32 word" where
  "pagevec_space pv = word_of_nat PAGEVEC_SIZE - ucast (nr pv)"

definition pagevec_reinit :: "pagevec \<Rightarrow> pagevec" where
  "pagevec_reinit pv = pv\<lparr>nr := 0\<rparr>"

text \<open>\<open>pagevec_add\<close> is \<open>pvec->pages[pvec->nr++] = page\<close>. A store beyond the array is
  undefined in C; the model stops there with \<open>Oops\<close>.\<close>

definition pagevec_add :: "pagevec \<Rightarrow> nat ptr \<Rightarrow> pagevec outcome" where
  "pagevec_add pv page =
     (if unat (nr pv) < length (pages pv)
      then Returns (pv\<lparr>pages := (pages pv)[unat (nr pv) := page], nr := nr pv + 1\<rparr>)
      else Oops)"

section \<open>Memory and page wrappers of ssdfs_inline.h\<close>

definition ssdfs_memory_leaks_increment :: "config \<Rightarrow> kstate \<Rightarrow> kstate" where
  "ssdfs_memory_leaks_increment cfg st =
     (if CONFIG_SSDFS_MEMORY_LEAKS_ACCOUNTING cfg
      then st\<lparr>ssdfs_memory_leaks := ssdfs_memory_leaks st + 1\<rparr>
      else st)"

definition ssdfs_memory_leaks_decrement :: "config \<Rightarrow> kstate \<Rightarrow> kstate" where
  "ssdfs_memory_leaks_decrement cfg st =
     (if CONFIG_SSDFS_MEMORY_LEAKS_ACCOUNTING cfg
      then st\<lparr>ssdfs_memory_leaks := ssdfs_memory_leaks st - 1\<rparr>
      else st)"

text \<open>A \<open>void *\<close> is an address of the flat memory, \<open>0\<close> is NULL.\<close>

definition ssdfs_kfree :: "config \<Rightarrow> nat \<Rightarrow> kstate \<Rightarrow> kstate" where
  "ssdfs_kfree cfg kaddr st =
     (if kaddr \<noteq> 0 then kfree kaddr (ssdfs_memory_leaks_decrement cfg st) else st)"

definition ssdfs_kvfree :: "config \<Rightarrow> nat \<Rightarrow> kstate \<Rightarrow> kstate" where
  "ssdfs_kvfree cfg kaddr st =
     (if kaddr \<noteq> 0 then kvfree kaddr (ssdfs_memory_leaks_decrement cfg st) else st)"

definition ssdfs_get_page :: "nat \<Rightarrow> kstate \<Rightarrow> kstate" where
  "ssdfs_get_page p st = get_page p st"

definition ssdfs_put_page :: "nat \<Rightarrow> kstate \<Rightarrow> kstate" where
  "ssdfs_put_page p st =
     (let st1 = put_page p st
      in if sint (page_ref st1 p) < 1 then printk WARN st1 else st1)"

definition ssdfs_alloc_page :: "config \<Rightarrow> 32 word \<Rightarrow> kstate \<Rightarrow> nat ptr \<times> kstate" where
  "ssdfs_alloc_page cfg gfp_mask st =
     (case alloc_page gfp_mask st of
        (None, st1) \<Rightarrow> (ERR_PTR ENOMEM, printk ERR st1)
      | (Some p, st1) \<Rightarrow>
          (let st2 = ssdfs_get_page p st1;
               st3 = (if CONFIG_SSDFS_MEMORY_LEAKS_ACCOUNTING cfg
                      then st2\<lparr>ssdfs_allocated_pages := ssdfs_allocated_pages st2 + 1\<rparr>
                      else st2)
           in (Ptr p, st3)))"

text \<open>The pagevec is passed by pointer: \<open>None\<close> is a NULL \<open>pvec\<close>, and the call returns
  the pagevec as it leaves it.\<close>

definition ssdfs_add_pagevec_page ::
  "config \<Rightarrow> pagevec option \<Rightarrow> kstate \<Rightarrow> (nat ptr \<times> pagevec \<times> kstate) outcome" where
  "ssdfs_add_pagevec_page cfg pvec st =
     (case pvec of
        None \<Rightarrow> if CONFIG_SSDFS_DEBUG cfg then BUG else Oops
      | Some pv \<Rightarrow>
          if pagevec_space pv = 0
          then Returns (ERR_PTR E2BIG, pv, printk ERR st)
          else
            (case ssdfs_alloc_page cfg (GFP_KERNEL OR GFP_ZERO) st of
               (NULL, st1) \<Rightarrow> Returns (ERR_PTR ENOMEM, pv, printk ERR st1)
             | (ERR_PTR err, st1) \<Rightarrow> Returns (ERR_PTR err, pv, printk ERR st1)
             | (Ptr p, st1) \<Rightarrow>
                 (case pagevec_add pv (Ptr p) of
                    Returns pv1 \<Rightarrow> Returns (Ptr p, pv1, st1)
                  | BUG \<Rightarrow> BUG
                  | Oops \<Rightarrow> Oops)))"

text \<open>An \<open>ERR_PTR\<close> value is not NULL: the function goes on and dereferences it.\<close>

definition ssdfs_free_page :: "config \<Rightarrow> nat ptr \<Rightarrow> kstate \<Rightarrow> kstate outcome" where
  "ssdfs_free_page cfg page st =
     (case page of
        NULL \<Rightarrow> Returns st
      | ERR_PTR e \<Rightarrow> Oops
      | Ptr p \<Rightarrow>
          (let st1 = (if CONFIG_SSDFS_MEMORY_LEAKS_ACCOUNTING cfg \<and> page_locked st p
                      then printk WARN st else st);
               st2 = ssdfs_put_page p st1;
               st3 = (if sint (page_ref st2 p) \<le> 0 \<or> sint (page_ref st2 p) > 1
                      then printk WARN st2 else st2);
               st4 = (if CONFIG_SSDFS_MEMORY_LEAKS_ACCOUNTING cfg
                      then st3\<lparr>ssdfs_allocated_pages := ssdfs_allocated_pages st3 - 1\<rparr>
                      else st3)
           in Returns (free_pages_order0 p st4)))"

text \<open>The loop of \<open>ssdfs_pagevec_release\<close>, from index \<open>i\<close> on. A read beyond the array
  is undefined in C; the model stops there with \<open>Oops\<close>.\<close>

function ssdfs_pagevec_release_loop ::
  "config \<Rightarrow> pagevec \<Rightarrow> nat \<Rightarrow> kstate \<Rightarrow> (pagevec \<times> kstate) outcome" where
  "ssdfs_pagevec_release_loop cfg pv i st =
     (if i < unat (pagevec_count pv)
      then
        (if i < length (pages pv)
         then
           (case pages pv ! i of
              NULL \<Rightarrow> ssdfs_pagevec_release_loop cfg pv (i + 1) st
            | page \<Rightarrow>
                (case ssdfs_free_page cfg page st of
                   Returns st1 \<Rightarrow>
                     ssdfs_pagevec_release_loop cfg
                       (pv\<lparr>pages := (pages pv)[i := NULL]\<rparr>) (i + 1) st1
                 | BUG \<Rightarrow> BUG
                 | Oops \<Rightarrow> Oops))
         else Oops)
      else Returns (pv, st))"
  by pat_completeness auto
termination
  by (relation "measure (\<lambda>(cfg, pv, i, st). unat (pagevec_count pv) - i)")
     (auto simp: pagevec_count_def)

declare ssdfs_pagevec_release_loop.simps [simp del]

definition ssdfs_pagevec_release ::
  "config \<Rightarrow> pagevec option \<Rightarrow> kstate \<Rightarrow> (pagevec option \<times> kstate) outcome" where
  "ssdfs_pagevec_release cfg pvec st =
     (case pvec of
        None \<Rightarrow> Returns (None, st)
      | Some pv \<Rightarrow>
          (case ssdfs_pagevec_release_loop cfg pv 0 st of
             Returns (pv1, st1) \<Rightarrow> Returns (Some (pagevec_reinit pv1), st1)
           | BUG \<Rightarrow> BUG
           | Oops \<Rightarrow> Oops))"

text \<open>The expansions of \<open>SSDFS_MEMORY_LEAKS_CHECKER_FNS(name)\<close>; \<open>name\<close> selects the
  subsystem's counter. The expansions of \<open>SSDFS_MEMORY_ALLOCATOR_FNS(name)\<close> only call
  the plain functions above.\<close>

definition ssdfs_name_alloc_page ::
  "string \<Rightarrow> config \<Rightarrow> 32 word \<Rightarrow> kstate \<Rightarrow> nat ptr \<times> kstate" where
  "ssdfs_name_alloc_page name cfg gfp_mask st =
     (case ssdfs_alloc_page cfg gfp_mask st of
        (page, st1) \<Rightarrow>
          if \<not> IS_ERR_OR_NULL page
          then (page, st1\<lparr>ssdfs_name_page_leaks :=
                            (ssdfs_name_page_leaks st1)(name := ssdfs_name_page_leaks st1 name + 1)\<rparr>)
          else (page, st1))"

definition ssdfs_name_add_pagevec_page ::
  "string \<Rightarrow> config \<Rightarrow> pagevec option \<Rightarrow> kstate \<Rightarrow> (nat ptr \<times> pagevec \<times> kstate) outcome" where
  "ssdfs_name_add_pagevec_page name cfg pvec st =
     (case ssdfs_add_pagevec_page cfg pvec st of
        Returns (page, pv1, st1) \<Rightarrow>
          if \<not> IS_ERR_OR_NULL page
          then Returns (page, pv1,
                  st1\<lparr>ssdfs_name_page_leaks :=
                        (ssdfs_name_page_leaks st1)(name := ssdfs_name_page_leaks st1 name + 1)\<rparr>)
          else Returns (page, pv1, st1)
      | BUG \<Rightarrow> BUG
      | Oops \<Rightarrow> Oops)"

definition ssdfs_name_free_page :: "string \<Rightarrow> config \<Rightarrow> nat ptr \<Rightarrow> kstate \<Rightarrow> kstate outcome" where
  "ssdfs_name_free_page name cfg page st =
     ssdfs_free_page cfg page
       (if page \<noteq> NULL
        then st\<lparr>ssdfs_name_page_leaks :=
                  (ssdfs_name_page_leaks st)(name := ssdfs_name_page_leaks st name - 1)\<rparr>
        else st)"

section \<open>Bounded copy, move and fill\<close>

text \<open>The kernel's page helpers map the page and call \<open>memcpy\<close> or \<open>memset\<close>.\<close>

definition memcpy_page :: "(nat \<Rightarrow> 8 word) \<Rightarrow> nat \<Rightarrow> nat \<Rightarrow> nat \<Rightarrow> nat \<Rightarrow> nat \<Rightarrow> (nat \<Rightarrow> 8 word)" where
  "memcpy_page m dst_page dst_off src_page src_off len =
     memcpy m (page_address dst_page + dst_off) (page_address src_page + src_off) len"

definition memcpy_from_page :: "(nat \<Rightarrow> 8 word) \<Rightarrow> nat \<Rightarrow> nat \<Rightarrow> nat \<Rightarrow> nat \<Rightarrow> (nat \<Rightarrow> 8 word)" where
  "memcpy_from_page m to page offset len = memcpy m to (page_address page + offset) len"

definition memcpy_to_page :: "(nat \<Rightarrow> 8 word) \<Rightarrow> nat \<Rightarrow> nat \<Rightarrow> nat \<Rightarrow> nat \<Rightarrow> (nat \<Rightarrow> 8 word)" where
  "memcpy_to_page m page offset from len = memcpy m (page_address page + offset) from len"

definition memset_page :: "(nat \<Rightarrow> 8 word) \<Rightarrow> nat \<Rightarrow> nat \<Rightarrow> 32 word \<Rightarrow> nat \<Rightarrow> (nat \<Rightarrow> 8 word)" where
  "memset_page m page offset val len = memset m (page_address page + offset) (ucast val) len"

definition memzero_page :: "(nat \<Rightarrow> 8 word) \<Rightarrow> nat \<Rightarrow> nat \<Rightarrow> nat \<Rightarrow> (nat \<Rightarrow> 8 word)" where
  "memzero_page m page offset len = memset m (page_address page + offset) 0 len"

text \<open>
  The eight wrappers. Offsets, sizes and lengths are \<open>u32\<close>: the sums of the checks wrap
  at \<open>2^32\<close>. The checks stand inside \<open>#ifdef CONFIG_SSDFS_DEBUG\<close>. Buffers are addresses
  of the flat memory, pages are frame numbers; the result is \<open>Inr ()\<close> for the C return
  value 0.
\<close>

definition ssdfs_memcpy ::
  "config \<Rightarrow> nat \<Rightarrow> 32 word \<Rightarrow> 32 word \<Rightarrow> nat \<Rightarrow> 32 word \<Rightarrow> 32 word \<Rightarrow> 32 word \<Rightarrow> kstate
     \<Rightarrow> (errno + unit) \<times> kstate" where
  "ssdfs_memcpy cfg dst dst_off dst_size src src_off src_size copy_size st =
     (if CONFIG_SSDFS_DEBUG cfg \<and> src_off + copy_size > src_size
      then (Inl ERANGE, printk WARN st)
      else if CONFIG_SSDFS_DEBUG cfg \<and> dst_off + copy_size > dst_size
      then (Inl ERANGE, printk WARN st)
      else (Inr (), st\<lparr>mem := memcpy (mem st) (dst + unat dst_off) (src + unat src_off)
                                  (unat copy_size)\<rparr>))"

definition ssdfs_memcpy_page ::
  "config \<Rightarrow> nat \<Rightarrow> 32 word \<Rightarrow> 32 word \<Rightarrow> nat \<Rightarrow> 32 word \<Rightarrow> 32 word \<Rightarrow> 32 word \<Rightarrow> kstate
     \<Rightarrow> (errno + unit) \<times> kstate" where
  "ssdfs_memcpy_page cfg dst_page dst_off dst_size src_page src_off src_size copy_size st =
     (if CONFIG_SSDFS_DEBUG cfg \<and> src_off + copy_size > src_size
      then (Inl ERANGE, printk ERR st)
      else if CONFIG_SSDFS_DEBUG cfg \<and> dst_off + copy_size > dst_size
      then (Inl ERANGE, printk ERR st)
      else (Inr (), st\<lparr>mem := memcpy_page (mem st) dst_page (unat dst_off) src_page (unat src_off)
                                  (unat copy_size)\<rparr>))"

definition ssdfs_memcpy_from_page ::
  "config \<Rightarrow> nat \<Rightarrow> 32 word \<Rightarrow> 32 word \<Rightarrow> nat \<Rightarrow> 32 word \<Rightarrow> 32 word \<Rightarrow> 32 word \<Rightarrow> kstate
     \<Rightarrow> (errno + unit) \<times> kstate" where
  "ssdfs_memcpy_from_page cfg dst dst_off dst_size page src_off src_size copy_size st =
     (if CONFIG_SSDFS_DEBUG cfg \<and> src_off + copy_size > src_size
      then (Inl ERANGE, printk ERR st)
      else if CONFIG_SSDFS_DEBUG cfg \<and> dst_off + copy_size > dst_size
      then (Inl ERANGE, printk ERR st)
      else (Inr (), st\<lparr>mem := memcpy_from_page (mem st) (dst + unat dst_off) page (unat src_off)
                                  (unat copy_size)\<rparr>))"

definition ssdfs_memcpy_to_page ::
  "config \<Rightarrow> nat \<Rightarrow> 32 word \<Rightarrow> 32 word \<Rightarrow> nat \<Rightarrow> 32 word \<Rightarrow> 32 word \<Rightarrow> 32 word \<Rightarrow> kstate
     \<Rightarrow> (errno + unit) \<times> kstate" where
  "ssdfs_memcpy_to_page cfg page dst_off dst_size src src_off src_size copy_size st =
     (if CONFIG_SSDFS_DEBUG cfg \<and> src_off + copy_size > src_size
      then (Inl ERANGE, printk ERR st)
      else if CONFIG_SSDFS_DEBUG cfg \<and> dst_off + copy_size > dst_size
      then (Inl ERANGE, printk ERR st)
      else (Inr (), st\<lparr>mem := memcpy_to_page (mem st) page (unat dst_off) (src + unat src_off)
                                  (unat copy_size)\<rparr>))"

definition ssdfs_memmove ::
  "config \<Rightarrow> nat \<Rightarrow> 32 word \<Rightarrow> 32 word \<Rightarrow> nat \<Rightarrow> 32 word \<Rightarrow> 32 word \<Rightarrow> 32 word \<Rightarrow> kstate
     \<Rightarrow> (errno + unit) \<times> kstate" where
  "ssdfs_memmove cfg dst dst_off dst_size src src_off src_size move_size st =
     (if CONFIG_SSDFS_DEBUG cfg \<and> src_off + move_size > src_size
      then (Inl ERANGE, printk ERR st)
      else if CONFIG_SSDFS_DEBUG cfg \<and> dst_off + move_size > dst_size
      then (Inl ERANGE, printk ERR st)
      else (Inr (), st\<lparr>mem := memmove (mem st) (dst + unat dst_off) (src + unat src_off)
                                  (unat move_size)\<rparr>))"

definition ssdfs_memmove_page ::
  "config \<Rightarrow> nat \<Rightarrow> 32 word \<Rightarrow> 32 word \<Rightarrow> nat \<Rightarrow> 32 word \<Rightarrow> 32 word \<Rightarrow> 32 word \<Rightarrow> kstate
     \<Rightarrow> (errno + unit) \<times> kstate" where
  "ssdfs_memmove_page cfg dst_page dst_off dst_size src_page src_off src_size move_size st =
     (if CONFIG_SSDFS_DEBUG cfg \<and> src_off + move_size > src_size
      then (Inl ERANGE, printk ERR st)
      else if CONFIG_SSDFS_DEBUG cfg \<and> dst_off + move_size > dst_size
      then (Inl ERANGE, printk ERR st)
      else (Inr (), st\<lparr>mem := memcpy_page (mem st) dst_page (unat dst_off) src_page (unat src_off)
                                  (unat move_size)\<rparr>))"

definition ssdfs_memset_page ::
  "config \<Rightarrow> nat \<Rightarrow> 32 word \<Rightarrow> 32 word \<Rightarrow> 32 word \<Rightarrow> 32 word \<Rightarrow> kstate
     \<Rightarrow> (errno + unit) \<times> kstate" where
  "ssdfs_memset_page cfg page dst_off dst_size val set_size st =
     (if CONFIG_SSDFS_DEBUG cfg \<and> dst_off + set_size > dst_size
      then (Inl ERANGE, printk ERR st)
      else (Inr (), st\<lparr>mem := memset_page (mem st) page (unat dst_off) val (unat set_size)\<rparr>))"

definition ssdfs_memzero_page ::
  "config \<Rightarrow> nat \<Rightarrow> 32 word \<Rightarrow> 32 word \<Rightarrow> 32 word \<Rightarrow> kstate
     \<Rightarrow> (errno + unit) \<times> kstate" where
  "ssdfs_memzero_page cfg page dst_off dst_size set_size st =
     (if CONFIG_SSDFS_DEBUG cfg \<and> dst_off + set_size > dst_size
      then (Inl ERANGE, printk ERR st)
      else (Inr (), st\<lparr>mem := memzero_page (mem st) page (unat dst_off) (unat set_size)\<rparr>))"

section \<open>Checksum\<close>

text \<open>
  \<open>crc32\<close> is the kernel's \<open>crc32_le\<close> (lib/crc32.c): the reflected CRC-32 with polynomial
  \<open>0xedb88320\<close>, one bit at a time, without inversion of the seed or of the result.
\<close>

definition CRCPOLY_LE :: "32 word" where
  "CRCPOLY_LE = 0xedb88320"

definition crc32_bit :: "32 word \<Rightarrow> 32 word" where
  "crc32_bit crc = drop_bit 1 crc XOR (if bit crc 0 then CRCPOLY_LE else 0)"

definition crc32_byte :: "32 word \<Rightarrow> 8 word \<Rightarrow> 32 word" where
  "crc32_byte crc b =
     crc32_bit (crc32_bit (crc32_bit (crc32_bit (crc32_bit (crc32_bit (crc32_bit (crc32_bit
       (crc XOR ucast b))))))))"

definition crc32 :: "32 word \<Rightarrow> 8 word list \<Rightarrow> 32 word" where
  "crc32 crc data = foldl crc32_byte crc data"

text \<open>The bytes \<open>len\<close> bytes from address \<open>a\<close> on, and little-endian loads and stores.\<close>

definition read_bytes :: "(nat \<Rightarrow> 8 word) \<Rightarrow> nat \<Rightarrow> nat \<Rightarrow> 8 word list" where
  "read_bytes m a len = map (\<lambda>i. m (a + i)) [0..<len]"

definition load_le16 :: "(nat \<Rightarrow> 8 word) \<Rightarrow> nat \<Rightarrow> 16 word" where
  "load_le16 m a = ucast (m a) OR push_bit 8 (ucast (m (a + 1)))"

definition load_le32 :: "(nat \<Rightarrow> 8 word) \<Rightarrow> nat \<Rightarrow> 32 word" where
  "load_le32 m a =
     ucast (m a) OR push_bit 8 (ucast (m (a + 1))) OR
     push_bit 16 (ucast (m (a + 2))) OR push_bit 24 (ucast (m (a + 3)))"

definition store_le32 :: "(nat \<Rightarrow> 8 word) \<Rightarrow> nat \<Rightarrow> 32 word \<Rightarrow> (nat \<Rightarrow> 8 word)" where
  "store_le32 m a v =
     m(a := ucast v, a + 1 := ucast (drop_bit 8 v),
       a + 2 := ucast (drop_bit 16 v), a + 3 := ucast (drop_bit 24 v))"

text \<open>
  Modelled from the spec: the layout of \<open>struct ssdfs_metadata_check\<close>, which is declared
  in include/linux/ssdfs_fs.h and missing from src/. The spec gives the record as
  \<open>{length: u16, flags: u16, checksum: u32}\<close>; the fields are little-endian and lie at
  offsets 0, 2 and 4 of the record.
\<close>

definition check_bytes :: "(nat \<Rightarrow> 8 word) \<Rightarrow> nat \<Rightarrow> 16 word" where
  "check_bytes m check = load_le16 m check"

definition check_flags :: "(nat \<Rightarrow> 8 word) \<Rightarrow> nat \<Rightarrow> 16 word" where
  "check_flags m check = load_le16 m (check + 2)"

definition check_csum :: "(nat \<Rightarrow> 8 word) \<Rightarrow> nat \<Rightarrow> 32 word" where
  "check_csum m check = load_le32 m (check + 4)"

definition set_check_csum :: "(nat \<Rightarrow> 8 word) \<Rightarrow> nat \<Rightarrow> 32 word \<Rightarrow> (nat \<Rightarrow> 8 word)" where
  "set_check_csum m check v = store_le32 m (check + 4) v"

text \<open>\<open>ssdfs_crc32_le\<close>: the value whose little-endian bytes \<open>cpu_to_le32\<close> produces.\<close>

definition ssdfs_crc32_le :: "(nat \<Rightarrow> 8 word) \<Rightarrow> nat \<Rightarrow> nat \<Rightarrow> 32 word" where
  "ssdfs_crc32_le m data len = crc32 (NOT 0) (read_bytes m data len)"

text \<open>
  \<open>check\<close> and \<open>buf\<close> are addresses of the same flat memory (\<open>0\<close> is NULL): the record may
  lie inside the buffer, as it does where the driver checks a header that embeds its own
  \<open>ssdfs_metadata_check\<close>. Reading through a NULL pointer is an \<open>Oops\<close>.
\<close>

definition ssdfs_calculate_csum ::
  "config \<Rightarrow> ssdfs_consts \<Rightarrow> nat \<Rightarrow> nat \<Rightarrow> 64 word \<Rightarrow> kstate
     \<Rightarrow> ((errno + unit) \<times> kstate) outcome" where
  "ssdfs_calculate_csum cfg c check buf buf_size st =
     (if CONFIG_SSDFS_DEBUG cfg \<and> (check = 0 \<or> buf = 0) then BUG
      else if check = 0 then Oops
      else
        (let bytes = check_bytes (mem st) check;
             flags = check_flags (mem st) check
         in if ucast bytes > buf_size
            then Returns (Inl EINVAL, printk ERR st)
            else if flags AND SSDFS_CRC32 c \<noteq> 0
            then
              (let m1 = set_check_csum (mem st) check 0
               in if buf = 0 \<and> bytes \<noteq> 0 then Oops
                  else Returns (Inr (),
                         st\<lparr>mem := set_check_csum m1 check
                                      (ssdfs_crc32_le m1 buf (unat bytes))\<rparr>))
            else Returns (Inl EINVAL, printk ERR st)))"

definition is_csum_valid ::
  "config \<Rightarrow> ssdfs_consts \<Rightarrow> nat \<Rightarrow> nat \<Rightarrow> 64 word \<Rightarrow> kstate \<Rightarrow> (bool \<times> kstate) outcome" where
  "is_csum_valid cfg c check buf buf_size st =
     (if CONFIG_SSDFS_DEBUG cfg \<and> check = 0 then BUG
      else if check = 0 then Oops
      else
        (let old_csum = check_csum (mem st) check
         in case ssdfs_calculate_csum cfg c check buf buf_size st of
              BUG \<Rightarrow> BUG
            | Oops \<Rightarrow> Oops
            | Returns (Inl err, st1) \<Rightarrow> Returns (False, printk ERR st1)
            | Returns (Inr u, st1) \<Rightarrow>
                (let calc_csum = check_csum (mem st1) check;
                     st2 = st1\<lparr>mem := set_check_csum (mem st1) check old_csum\<rparr>
                 in if old_csum \<noteq> calc_csum
                    then Returns (False, printk ERR st2)
                    else Returns (True, st2))))"

section \<open>Page vector\<close>

text \<open>\<open>struct ssdfs_page_vector\<close> of page_vector.h: \<open>count\<close> and \<open>capacity\<close> are \<open>u8\<close>,
  \<open>vec_pages\<close> is the slot array \<open>pages\<close>.\<close>

record ssdfs_page_vector =
  count :: "8 word"
  capacity :: "8 word"
  vec_pages :: "nat ptr list"

text \<open>
  Modelled from the spec: \<open>ssdfs_page_vector_create\<close>, declared in page_vector.h; its body
  (page_vector.c) is missing from src/. The spec: create(capacity) allocates a slot array
  of exactly \<open>capacity\<close> handle slots, \<open>count = 0\<close>; it fails with OutOfMemory if the slot
  array cannot be allocated; capacity must be 1 to 255 or the call fails with
  InvalidArgument. \<open>slots_allocated\<close> tells whether the allocation of the slot array
  succeeds.
\<close>

definition ssdfs_page_vector_create :: "bool \<Rightarrow> 8 word \<Rightarrow> errno + ssdfs_page_vector" where
  "ssdfs_page_vector_create slots_allocated cap =
     (if cap = 0 then Inl EINVAL
      else if \<not> slots_allocated then Inl ENOMEM
      else Inr \<lparr>count = 0, capacity = cap, vec_pages = replicate (unat cap) NULL\<rparr>)"

text \<open>
  Modelled from the spec: \<open>ssdfs_page_vector_add\<close>, declared in page_vector.h; its body is
  missing from src/. The spec: add(handle) requires \<open>count < capacity\<close>; it takes ownership
  of the handle, placing it at slot \<open>count\<close>, then increments \<open>count\<close>; it fails with
  CapacityExceeded if the vector is full, and then the caller still owns the handle.
  CapacityExceeded is \<open>-E2BIG\<close>, as in \<open>ssdfs_add_pagevec_page\<close>. The call returns the
  vector as it leaves it.
\<close>

definition ssdfs_page_vector_add ::
  "ssdfs_page_vector \<Rightarrow> nat ptr \<Rightarrow> (errno + unit) \<times> ssdfs_page_vector" where
  "ssdfs_page_vector_add array page =
     (if count array < capacity array
      then (Inr (), array\<lparr>vec_pages := (vec_pages array)[unat (count array) := page],
                          count := count array + 1\<rparr>)
      else (Inl E2BIG, array))"

text \<open>
  Modelled from the spec: \<open>ssdfs_page_vector_count\<close>, declared in page_vector.h; its body
  is missing from src/. The spec: count() returns the current occupancy and never fails.
\<close>

definition ssdfs_page_vector_count :: "ssdfs_page_vector \<Rightarrow> 32 word" where
  "ssdfs_page_vector_count array = ucast (count array)"

text \<open>A sequence of \<open>add\<close> calls that all succeed; the first failure ends it.\<close>

fun add_all :: "ssdfs_page_vector \<Rightarrow> nat ptr list \<Rightarrow> errno + ssdfs_page_vector" where
  "add_all array [] = Inr array"
| "add_all array (page # rest) =
     (case ssdfs_page_vector_add array page of
        (Inl err, array1) \<Rightarrow> Inl err
      | (Inr u, array1) \<Rightarrow> add_all array1 rest)"

text \<open>The handles the vector owns: those in the slots below \<open>count\<close>.\<close>

definition owned :: "ssdfs_page_vector \<Rightarrow> nat ptr set" where
  "owned array = set (take (unat (count array)) (vec_pages array))"

section \<open>Sample configurations and states\<close>

definition cfg_debug :: config where
  "cfg_debug = \<lparr>CONFIG_SSDFS_DEBUG = True, CONFIG_SSDFS_MEMORY_LEAKS_ACCOUNTING = True\<rparr>"

definition cfg_plain :: config where
  "cfg_plain = \<lparr>CONFIG_SSDFS_DEBUG = False, CONFIG_SSDFS_MEMORY_LEAKS_ACCOUNTING = False\<rparr>"

definition consts_v1 :: ssdfs_consts where
  "consts_v1 = \<lparr>SSDFS_SUPER_MAGIC = 0x53734466, SSDFS_MAJOR_REVISION = 1,
                SSDFS_MINOR_REVISION = 15, SSDFS_CRC32 = 1\<rparr>"

text \<open>A state whose memory holds, at every address, the low byte of the address; frames 1
  and 2 are with the allocator, nothing else is allocated, all counters are zero.\<close>

definition st_boot :: kstate where
  "st_boot = \<lparr>mem = (\<lambda>a. word_of_nat a), page_ref = (\<lambda>p. 0), page_locked = (\<lambda>p. False),
              free_list = [1, 2], kheap = {}, ssdfs_allocated_pages = 0,
              ssdfs_memory_leaks = 0, ssdfs_locked_pages = 0,
              ssdfs_name_page_leaks = (\<lambda>n. 0), ssdfs_name_memory_leaks = (\<lambda>n. 0),
              ssdfs_name_cache_leaks = (\<lambda>n. 0), klog = []\<rparr>"

text \<open>Memory that holds the bytes \<open>bs\<close> from address \<open>base\<close> on and zero elsewhere.\<close>

definition mem_of :: "nat \<Rightarrow> 8 word list \<Rightarrow> (nat \<Rightarrow> 8 word)" where
  "mem_of base bs = (\<lambda>a. if base \<le> a \<and> a < base + length bs then bs ! (a - base) else 0)"

text \<open>A full pagevec, and one that holds two pages around an empty slot.\<close>

definition pv_full :: pagevec where
  "pv_full = \<lparr>nr = 15, pages = replicate 15 (Ptr 9)\<rparr>"

definition pv_sample :: pagevec where
  "pv_sample = \<lparr>nr = 3, pages = [Ptr 5, NULL, Ptr 6] @ replicate 12 NULL\<rparr>"

text \<open>Three memories for the checksum functions. In \<open>st_hdr\<close> a 12-byte buffer at
  address 1000 starts with its own check record (length 8, flag CRC32). In \<open>st_sep\<close> the
  record at 1000 (length 4, flag CRC32) describes a separate buffer at 2000. In
  \<open>st_noflag\<close> the record at 1000 has length 4 and no flag.\<close>

definition st_hdr :: kstate where
  "st_hdr = st_boot\<lparr>mem := mem_of 1000 [8, 0, 1, 0, 0, 0, 0, 0, 49, 223, 58, 4]\<rparr>"

definition st_sep :: kstate where
  "st_sep = st_boot\<lparr>mem := (mem_of 1000 [4, 0, 1, 0, 0, 0, 0, 0])
                               (2000 := 1, 2001 := 2, 2002 := 3, 2003 := 4)\<rparr>"

definition st_noflag :: kstate where
  "st_noflag = st_boot\<lparr>mem := mem_of 1000 [4, 0, 0, 0, 0, 0, 0, 0]\<rparr>"

section \<open>Helper lemmas\<close>

lemma sint_eq_1_iff: "(sint (r::32 word) = 1) = (r = 1)"
  using word_eq_iff_signed[where 'a=int, of r 1] by simp

lemma refcount_anomaly_iff: "(sint (r::32 word) \<le> 0 \<or> 1 < sint r) = (r \<noteq> 1)"
  using sint_eq_1_iff[of r] by auto

lemma ssdfs_alloc_page_Some:
  assumes "free_list st = p # ps"
  shows "ssdfs_alloc_page cfg g st =
     (Ptr p, st\<lparr>free_list := ps,
                page_ref := (page_ref st)(p := 2),
                mem := (if g AND GFP_ZERO \<noteq> 0 then memset (mem st) (page_address p) 0 PAGE_SIZE else mem st),
                ssdfs_allocated_pages := (if CONFIG_SSDFS_MEMORY_LEAKS_ACCOUNTING cfg then ssdfs_allocated_pages st + 1 else ssdfs_allocated_pages st)\<rparr>)"
  using assms by (simp add: ssdfs_alloc_page_def alloc_page_def ssdfs_get_page_def get_page_def Let_def)

lemma ssdfs_alloc_page_Nil:
  assumes "free_list st = []"
  shows "ssdfs_alloc_page cfg g st = (ERR_PTR ENOMEM, printk ERR st)"
  using assms by (simp add: ssdfs_alloc_page_def alloc_page_def)

lemma word_dec_eq_1_iff: "((r :: 32 word) - 1 = 1) = (r = 2)"
  by (simp add: diff_eq_eq)

lemma ssdfs_free_page_Ptr:
  "ssdfs_free_page cfg (Ptr p) st =
     Returns (st\<lparr>
       klog := klog st
          @ (if CONFIG_SSDFS_MEMORY_LEAKS_ACCOUNTING cfg \<and> page_locked st p then [WARN] else [])
          @ (if sint (page_ref st p - 1) < 1 then [WARN] else [])
          @ (if page_ref st p - 1 \<noteq> 1 then [WARN] else []),
       page_ref := (page_ref st)(p := page_ref st p - 2),
       ssdfs_allocated_pages :=
          (if CONFIG_SSDFS_MEMORY_LEAKS_ACCOUNTING cfg
           then ssdfs_allocated_pages st - 1 else ssdfs_allocated_pages st),
       free_list := (if page_ref st p = 1 \<or> page_ref st p = 2 then [p] else []) @ free_list st\<rparr>)"
  by (auto simp: ssdfs_free_page_def ssdfs_put_page_def put_page_def put_page_testzero_def
      free_the_page_def free_pages_order0_def printk_def Let_def refcount_anomaly_iff)

lemma unat_ucast_u8_u32: "unat (ucast (x::8 word) :: 32 word) = unat x"
  by transfer simp

lemma pagevec_space_0_iff:
  "unat (nr pv) \<le> PAGEVEC_SIZE \<Longrightarrow> (pagevec_space pv = 0) = (unat (nr pv) = PAGEVEC_SIZE)"
  unfolding pagevec_space_def PAGEVEC_SIZE_def
  by (simp add: word_eq_iff_unsigned[where 'a=nat] unat_sub_if' unat_ucast_u8_u32) 

lemma pagevec_add_wf:
  assumes "pagevec_wf pv" "pagevec_space pv \<noteq> 0"
  shows "pagevec_add pv page =
           Returns (pv\<lparr>pages := (pages pv)[unat (nr pv) := page], nr := nr pv + 1\<rparr>)"
  using assms pagevec_space_0_iff[of pv]
  by (auto simp: pagevec_add_def pagevec_wf_def)

lemma ssdfs_free_page_Ptr_Returns: "\<exists>st'. ssdfs_free_page cfg (Ptr p) st = Returns st'"
  by (simp add: ssdfs_free_page_def Let_def)

lemma release_loop:
  assumes "unat (nr pv) \<le> length (pages pv)"
      and "\<forall>j. i \<le> j \<and> j < unat (nr pv) \<longrightarrow> (\<forall>e. pages pv ! j \<noteq> ERR_PTR e)"
      and "i \<le> unat (nr pv)"
  shows "ssdfs_pagevec_release_loop cfg pv i st =
     Returns (pv\<lparr>pages := take i (pages pv) @ replicate (unat (nr pv) - i) NULL
                              @ drop (unat (nr pv)) (pages pv)\<rparr>,
              foldl (\<lambda>s q. case ssdfs_free_page cfg q s of Returns s' \<Rightarrow> s' | BUG \<Rightarrow> s | Oops \<Rightarrow> s) st
                (filter (\<lambda>q. q \<noteq> NULL) (take (unat (nr pv) - i) (drop i (pages pv)))))"
  using assms
proof (induction cfg pv i st rule: ssdfs_pagevec_release_loop.induct)
  case (1 cfg pv i st)
  show ?case
  proof (cases "i < unat (nr pv)")
    case False
    with "1.prems" have "i = unat (nr pv)" by simp
    then show ?thesis
      by (subst ssdfs_pagevec_release_loop.simps) (simp add: pagevec_count_def unat_ucast_u8_u32)
  next
    case True
    then have il: "i < length (pages pv)" using "1.prems" by simp
    have cnt: "i < unat (pagevec_count pv)" using True by (simp add: pagevec_count_def unat_ucast_u8_u32)
    have dr: "drop i (pages pv) = pages pv ! i # drop (Suc i) (pages pv)"
      using il by (simp add: Cons_nth_drop_Suc)
    have k: "unat (nr pv) - i = Suc (unat (nr pv) - Suc i)"
      using True by arith
    have tk: "take (unat (nr pv) - i) (drop i (pages pv)) =
                pages pv ! i # take (unat (nr pv) - Suc i) (drop (Suc i) (pages pv))"
      by (subst k, subst dr) simp
    have rp: "replicate (unat (nr pv) - i) NULL = NULL # replicate (unat (nr pv) - Suc i) (NULL :: nat ptr)"
      by (subst k) simp
    show ?thesis
    proof (cases "pages pv ! i")
      case NULL
      have ih: "ssdfs_pagevec_release_loop cfg pv (Suc i) st =
          Returns (pv\<lparr>pages := take (Suc i) (pages pv) @ replicate (unat (nr pv) - (Suc i)) NULL
                              @ drop (unat (nr pv)) (pages pv)\<rparr>,
              foldl (\<lambda>s q. case ssdfs_free_page cfg q s of Returns s' \<Rightarrow> s' | BUG \<Rightarrow> s | Oops \<Rightarrow> s) st
                (filter (\<lambda>q. q \<noteq> NULL) (take (unat (nr pv) - (Suc i)) (drop (Suc i) (pages pv)))))"
        using "1.IH"(1)[OF cnt il NULL] "1.prems" True by auto
      have tk1: "take (Suc i) (pages pv) = take i (pages pv) @ [NULL]"
        using il NULL by (simp add: take_Suc_conv_app_nth)
      show ?thesis
        by (subst ssdfs_pagevec_release_loop.simps) (simp add: cnt il NULL ih tk1 tk rp)
    next
      case (ERR_PTR e)
      with "1.prems" True show ?thesis by auto
    next
      case (Ptr p)
      obtain st1 where fr: "ssdfs_free_page cfg (Ptr p) st = Returns st1"
        using ssdfs_free_page_Ptr_Returns by blast
      let ?pv = "pv\<lparr>pages := (pages pv)[i := NULL]\<rparr>"
      have ih: "ssdfs_pagevec_release_loop cfg ?pv (Suc i) st1 =
          Returns (?pv\<lparr>pages := take (Suc i) (pages ?pv) @ replicate (unat (nr ?pv) - (Suc i)) NULL
                              @ drop (unat (nr ?pv)) (pages ?pv)\<rparr>,
              foldl (\<lambda>s q. case ssdfs_free_page cfg q s of Returns s' \<Rightarrow> s' | BUG \<Rightarrow> s | Oops \<Rightarrow> s) st1
                (filter (\<lambda>q. q \<noteq> NULL) (take (unat (nr ?pv) - (Suc i)) (drop (Suc i) (pages ?pv)))))"
        using "1.IH"(3)[OF cnt il Ptr fr] "1.prems" True Ptr by auto
      have tk1: "take (Suc i) ((pages pv)[i := NULL]) = take i (pages pv) @ [NULL]"
        using il by (simp add: take_Suc_conv_app_nth)
      show ?thesis
        by (subst ssdfs_pagevec_release_loop.simps)
           (simp add: cnt il Ptr fr ih tk1 tk rp True drop_update_cancel)
    qed
  qed
qed

lemma u32_sum_gt:
  fixes off n size :: "32 word"
  assumes "unat off + unat n < 2 ^ 32" "unat size < unat off + unat n"
  shows "size < off + n"
proof -
  have "unat (off + n) = unat off + unat n"
    using assms(1) by (simp add: unat_word_ariths)
  then show ?thesis
    using assms(2) by (simp add: word_less_nat_alt)
qed

lemma memcpy_8:
  "memcpy m d s 8 = memcpy m d s (Suc (Suc (Suc (Suc (Suc (Suc (Suc (Suc 0))))))))"
  by (simp add: eval_nat_numeral)

lemma u8_succ:
  fixes x y :: "8 word"
  assumes "x < y"
  shows "unat (x + 1) = Suc (unat x)"
proof -
  have "unat x < unat y" using assms by (simp add: word_less_nat_alt)
  moreover have "unat y < 2 ^ 8" using unsigned_less[of y, where 'a=nat] by simp
  ultimately have "unat x + unat (1 :: 8 word) < 2 ^ LENGTH(8)" by simp
  then have "unat (x + 1) = unat x + unat (1 :: 8 word)"
    by (simp only: unat_add_lem[THEN iffD1])
  then show ?thesis by simp
qed

lemma add_ok:
  assumes "ssdfs_page_vector_add v h = (Inr u, v1)" "count v \<le> capacity v"
  shows "count v1 \<le> capacity v1 \<and> capacity v1 = capacity v \<and>
         unat (count v1) = Suc (unat (count v))"
  using assms u8_succ[of "count v" "capacity v"] inc_le[of "count v" "capacity v"]
  by (auto simp: ssdfs_page_vector_add_def split: if_splits)

lemma add_all_ok:
  assumes "add_all v hs = Inr v'" "count v \<le> capacity v"
  shows "count v' \<le> capacity v' \<and> capacity v' = capacity v \<and>
         unat (count v') = unat (count v) + length hs"
  using assms
proof (induction hs arbitrary: v)
  case Nil
  then show ?case by simp
next
  case (Cons h hs)
  then obtain u v1 where a: "ssdfs_page_vector_add v h = (Inr u, v1)" and r: "add_all v1 hs = Inr v'"
    by (auto split: prod.splits sum.splits)
  from add_ok[OF a Cons.prems(2)] have s: "count v1 \<le> capacity v1" "capacity v1 = capacity v"
      "unat (count v1) = Suc (unat (count v))" by blast+
  from Cons.IH[OF r s(1)] have i: "count v' \<le> capacity v'" "capacity v' = capacity v1"
      "unat (count v') = unat (count v1) + length hs" by blast+
  have "capacity v' = capacity v" using i(2) s(2) by (rule trans)
  moreover have "unat (count v') = unat (count v) + length (h # hs)" using i(3) s(3) by simp
  ultimately show ?case using i(1) by blast
qed

lemma byte0: "ucast (load_le32 m a) = m a"
  unfolding load_le32_def
  by (rule bit_word_eqI) (auto simp: bit_simps)

lemma byte1: "ucast (drop_bit 8 (load_le32 m a)) = m (a + 1)"
  unfolding load_le32_def
  by (rule bit_word_eqI) (auto simp: bit_simps dest: bit_imp_le_length)

lemma byte2: "ucast (drop_bit 16 (load_le32 m a)) = m (a + 2)"
  unfolding load_le32_def
  by (rule bit_word_eqI) (auto simp: bit_simps dest: bit_imp_le_length)

lemma byte3: "ucast (drop_bit 24 (load_le32 m a)) = m (a + 3)"
  unfolding load_le32_def
  by (rule bit_word_eqI) (auto simp: bit_simps dest: bit_imp_le_length)

lemma load_store_le32: "load_le32 (store_le32 m a v) a = v"
proof (rule bit_word_eqI)
  fix n assume n: "n < LENGTH(32)"
  consider "n < 8" | "8 \<le> n" "n < 16" | "16 \<le> n" "n < 24" | "24 \<le> n" "n < 32"
    using n by fastforce
  then show "bit (load_le32 (store_le32 m a v) a) n = bit v n"
    by cases (auto simp: load_le32_def store_le32_def bit_simps)
qed

lemma store_load_le32: "store_le32 m a (load_le32 m a) = m"
  by (rule ext) (simp add: store_le32_def byte0 byte1 byte2 byte3)

lemma store_store_le32: "store_le32 (store_le32 m a v) a w = store_le32 m a w"
  by (rule ext) (simp add: store_le32_def)

lemma store_le32_other: "x < a \<or> a + 4 \<le> x \<Longrightarrow> store_le32 m a v x = m x"
  by (auto simp: store_le32_def)

lemma load_le16_cong: "m a = m' a \<Longrightarrow> m (a + 1) = m' (a + 1) \<Longrightarrow> load_le16 m a = load_le16 m' a"
  by (simp add: load_le16_def)

lemma load_le32_inj:
  assumes "load_le32 m a = load_le32 m' a"
  shows "m a = m' a \<and> m (a + 1) = m' (a + 1) \<and> m (a + 2) = m' (a + 2) \<and> m (a + 3) = m' (a + 3)"
  using byte0[of m a] byte1[of m a] byte2[of m a] byte3[of m a]
        byte0[of m' a] byte1[of m' a] byte2[of m' a] byte3[of m' a] assms
  by simp

lemma xor_right_cancel: "(x :: 'a :: len word) XOR a = y XOR a \<Longrightarrow> x = y"
proof -
  assume "x XOR a = y XOR a"
  then have "(x XOR a) XOR a = (y XOR a) XOR a" by simp
  then show "x = y" by (simp add: xor.assoc)
qed

lemma xor_left_cancel: "(a :: 'a :: len word) XOR x = a XOR y \<Longrightarrow> x = y"
  using xor_right_cancel[of x a y] by (simp add: xor.commute)

lemma crc32_bit_top: "bit (crc32_bit x) 31 = bit x 0"
  by (auto simp: crc32_bit_def CRCPOLY_LE_def bit_simps dest: bit_imp_le_length)

lemma crc32_bit_inj: "crc32_bit x = crc32_bit y \<Longrightarrow> x = y"
proof -
  assume e: "crc32_bit x = crc32_bit y"
  have b0: "bit x 0 = bit y 0"
    using crc32_bit_top[of x] crc32_bit_top[of y] e by simp
  have d: "drop_bit 1 x = drop_bit 1 y"
    using e b0 by (auto simp: crc32_bit_def dest: xor_right_cancel split: if_splits)
  show "x = y"
  proof (rule bit_word_eqI)
    fix n assume "n < LENGTH(32)"
    show "bit x n = bit y n"
    proof (cases n)
      case 0
      then show ?thesis using b0 by simp
    next
      case (Suc k)
      have "bit (drop_bit 1 x) k = bit (drop_bit 1 y) k" using d by simp
      then show ?thesis using Suc by (simp add: bit_drop_bit_eq)
    qed
  qed
qed

lemma ucast_u8_u32_inj: "(ucast (a :: 8 word) :: 32 word) = ucast (b :: 8 word) \<Longrightarrow> a = b"
proof (rule bit_word_eqI)
  fix n assume e: "(ucast a :: 32 word) = ucast b" and n: "n < LENGTH(8)"
  have "bit (ucast a :: 32 word) n = bit (ucast b :: 32 word) n" using e by simp
  then show "bit a n = bit b n" using n by (simp add: bit_simps)
qed

lemma crc32_byte_inj_state: "crc32_byte x b = crc32_byte y b \<Longrightarrow> x = y"
  unfolding crc32_byte_def by (auto dest!: crc32_bit_inj xor_right_cancel)

lemma crc32_byte_inj_data: "crc32_byte x a = crc32_byte x b \<Longrightarrow> a = b"
  unfolding crc32_byte_def by (auto dest!: crc32_bit_inj xor_left_cancel ucast_u8_u32_inj)

lemma crc32_inj_state: "crc32 x bs = crc32 y bs \<Longrightarrow> x = y"
  unfolding crc32_def
  by (induction bs arbitrary: x y) (auto dest: crc32_byte_inj_state)

lemma crc32_update_neq:
  assumes "i < length bs" "b \<noteq> bs ! i"
  shows "crc32 x (bs[i := b]) \<noteq> crc32 x bs"
  using assms
proof (induction bs arbitrary: i x)
  case Nil
  then show ?case by simp
next
  case (Cons a bs)
  show ?case
  proof (cases i)
    case 0
    with Cons.prems have "b \<noteq> a" by simp
    then have "crc32_byte x b \<noteq> crc32_byte x a" by (auto dest: crc32_byte_inj_data)
    then have "crc32 (crc32_byte x b) bs \<noteq> crc32 (crc32_byte x a) bs"
      by (auto dest: crc32_inj_state)
    then show ?thesis using 0 by (simp add: crc32_def)
  next
    case (Suc j)
    with Cons.prems have "j < length bs" "b \<noteq> bs ! j" by simp_all
    from Cons.IH[OF this, of "crc32_byte x a"] show ?thesis using Suc by (simp add: crc32_def)
  qed
qed

lemma check_bytes_set_csum [simp]: "check_bytes (set_check_csum m check v) check = check_bytes m check"
  by (simp add: check_bytes_def set_check_csum_def load_le16_def store_le32_def)

lemma check_flags_set_csum [simp]: "check_flags (set_check_csum m check v) check = check_flags m check"
  by (simp add: check_flags_def set_check_csum_def load_le16_def store_le32_def)

lemma check_csum_set_csum [simp]: "check_csum (set_check_csum m check v) check = v"
  by (simp add: check_csum_def set_check_csum_def load_store_le32)

lemma set_csum_set_csum [simp]: "set_check_csum (set_check_csum m check v) check w = set_check_csum m check w"
  by (simp add: set_check_csum_def store_store_le32)

lemma set_csum_check_csum [simp]: "set_check_csum m check (check_csum m check) = m"
  by (simp add: set_check_csum_def check_csum_def store_load_le32)

lemma set_csum_same: "check_csum m check = v \<Longrightarrow> set_check_csum m check v = m"
  by auto

lemma ssdfs_calculate_csum_eq:
  assumes "check \<noteq> 0" "CONFIG_SSDFS_DEBUG cfg \<longrightarrow> buf \<noteq> 0"
  shows "ssdfs_calculate_csum cfg c check buf buf_size st =
     (if ucast (check_bytes (mem st) check) > buf_size then Returns (Inl EINVAL, printk ERR st)
      else if check_flags (mem st) check AND SSDFS_CRC32 c = 0 then Returns (Inl EINVAL, printk ERR st)
      else if buf = 0 \<and> check_bytes (mem st) check \<noteq> 0 then Oops
      else Returns (Inr (),
             st\<lparr>mem := set_check_csum (mem st) check
                          (ssdfs_crc32_le (set_check_csum (mem st) check 0) buf
                             (unat (check_bytes (mem st) check)))\<rparr>))"
  using assms by (auto simp: ssdfs_calculate_csum_def Let_def)

lemma ssdfs_calculate_csum_success:
  assumes "ssdfs_calculate_csum cfg c check buf buf_size st = Returns (Inr u, st1)"
  shows "check \<noteq> 0 \<and> (CONFIG_SSDFS_DEBUG cfg \<longrightarrow> buf \<noteq> 0) \<and>
         \<not> ucast (check_bytes (mem st) check) > buf_size \<and>
         check_flags (mem st) check AND SSDFS_CRC32 c \<noteq> 0 \<and>
         \<not> (buf = 0 \<and> check_bytes (mem st) check \<noteq> 0) \<and>
         st1 = st\<lparr>mem := set_check_csum (mem st) check
                          (ssdfs_crc32_le (set_check_csum (mem st) check 0) buf
                             (unat (check_bytes (mem st) check)))\<rparr>"
  using assms by (auto simp: ssdfs_calculate_csum_def Let_def split: if_splits)

lemma is_csum_valid_eq:
  assumes "check \<noteq> 0" "CONFIG_SSDFS_DEBUG cfg \<longrightarrow> buf \<noteq> 0"
      and "\<not> (buf = 0 \<and> check_bytes (mem s) check \<noteq> 0)"
  shows "is_csum_valid cfg c check buf buf_size s =
     (if \<not> ucast (check_bytes (mem s) check) > buf_size \<and>
         check_flags (mem s) check AND SSDFS_CRC32 c \<noteq> 0 \<and>
         check_csum (mem s) check =
           ssdfs_crc32_le (set_check_csum (mem s) check 0) buf (unat (check_bytes (mem s) check))
      then Returns (True, s)
      else if \<not> ucast (check_bytes (mem s) check) > buf_size \<and>
         check_flags (mem s) check AND SSDFS_CRC32 c \<noteq> 0 then Returns (False, printk ERR s)
      else Returns (False, printk ERR (printk ERR s)))"
  using assms
  by (auto simp: is_csum_valid_def ssdfs_calculate_csum_eq Let_def set_csum_same)

lemma set_check_csum_other: "x < check + 4 \<or> check + 8 \<le> x \<Longrightarrow> set_check_csum m check v x = m x"
  by (auto simp: set_check_csum_def store_le32_def)

lemma read_bytes_set_csum_disjoint:
  assumes "check + 8 \<le> buf \<or> buf + n \<le> check + 4"
  shows "read_bytes (set_check_csum m check v) buf n = read_bytes m buf n"
  unfolding read_bytes_def using assms
  by (intro map_cong refl set_check_csum_other) auto

lemma store_le32_upd_inside:
  "x \<le> a \<Longrightarrow> a < x + 4 \<Longrightarrow> store_le32 (m(a := b)) x v = store_le32 m x v"
  by (rule ext) (auto simp: store_le32_def)

lemma store_le32_upd_outside:
  "a < x \<or> x + 4 \<le> a \<Longrightarrow> store_le32 (m(a := b)) x v = (store_le32 m x v)(a := b)"
  by (rule ext) (auto simp: store_le32_def)

lemma load_le32_upd_outside:
  "a < x \<or> x + 4 \<le> a \<Longrightarrow> load_le32 (m(a := b)) x = load_le32 m x"
  by (auto simp: load_le32_def)

lemma load_le16_upd_outside:
  "a < x \<or> x + 2 \<le> a \<Longrightarrow> load_le16 (m(a := b)) x = load_le16 m x"
  by (auto simp: load_le16_def)

lemma read_bytes_upd:
  assumes "buf \<le> a" "a < buf + n"
  shows "read_bytes (m(a := b)) buf n = (read_bytes m buf n)[a - buf := b]"
proof (rule nth_equalityI)
  show "length (read_bytes (m(a := b)) buf n) = length ((read_bytes m buf n)[a - buf := b])"
    by (simp add: read_bytes_def)
next
  fix i assume "i < length (read_bytes (m(a := b)) buf n)"
  then have i: "i < n" by (simp add: read_bytes_def)
  show "read_bytes (m(a := b)) buf n ! i = (read_bytes m buf n)[a - buf := b] ! i"
    using i assms by (auto simp: read_bytes_def nth_list_update)
qed

lemma flip_bit_neq: "k < 8 \<Longrightarrow> flip_bit k (w :: 8 word) \<noteq> w"
proof
  assume k: "k < 8" and e: "flip_bit k w = w"
  have "bit (flip_bit k w) k = (\<not> bit w k)"
    using k by (simp add: bit_flip_bit_iff)
  then show False using e by simp
qed

lemma load_le32_upd_inside_neq:
  assumes "x \<le> a" "a < x + 4" "b \<noteq> m a"
  shows "load_le32 (m(a := b)) x \<noteq> load_le32 m x"
proof
  assume "load_le32 (m(a := b)) x = load_le32 m x"
  from load_le32_inj[OF this] have
    e: "(m(a := b)) x = m x" "(m(a := b)) (x + 1) = m (x + 1)"
       "(m(a := b)) (x + 2) = m (x + 2)" "(m(a := b)) (x + 3) = m (x + 3)" by blast+
  from assms(1,2) consider "a = x" | "a = x + 1" | "a = x + 2" | "a = x + 3" by fastforce
  then show False
  proof cases
    case 1 with e(1) assms(3) show False by simp
  next
    case 2 with e(2) assms(3) show False by simp
  next
    case 3 with e(3) assms(3) show False by simp
  next
    case 4 with e(4) assms(3) show False by simp
  qed
qed

lemma verify_after_change:
  assumes ok: "ssdfs_calculate_csum cfg c check buf buf_size st = Returns (Inr u, st1)"
      and rng: "buf \<le> a" "a < buf + unat (check_bytes (mem st) check)"
      and out: "a < check \<or> check + 2 \<le> a"
      and neq: "b \<noteq> mem st1 a"
  shows "\<exists>st2. is_csum_valid cfg c check buf buf_size (st1\<lparr>mem := (mem st1)(a := b)\<rparr>) =
           Returns (False, st2)"
proof -
  let ?m = "mem st"
  let ?n = "unat (check_bytes ?m check)"
  let ?z = "set_check_csum ?m check 0"
  let ?crc = "ssdfs_crc32_le ?z buf ?n"
  let ?ms = "(mem st1)(a := b)"
  from ssdfs_calculate_csum_success[OF ok] have
    pre: "check \<noteq> 0" "CONFIG_SSDFS_DEBUG cfg \<longrightarrow> buf \<noteq> 0"
         "\<not> buf_size < ucast (check_bytes ?m check)"
         "check_flags ?m check AND SSDFS_CRC32 c \<noteq> 0"
         "\<not> (buf = 0 \<and> check_bytes ?m check \<noteq> 0)"
    and st1: "st1 = st\<lparr>mem := set_check_csum ?m check ?crc\<rparr>"
    by blast+
  have m1: "mem st1 = set_check_csum ?m check ?crc" using st1 by simp
  have "check_bytes ?ms check = check_bytes (mem st1) check"
    unfolding check_bytes_def using out by (intro load_le16_upd_outside) auto
  then have bytes: "check_bytes ?ms check = check_bytes ?m check"
    by (simp add: m1)
  have differ: "check_csum ?ms check \<noteq> ssdfs_crc32_le (set_check_csum ?ms check 0) buf ?n"
  proof (cases "check + 4 \<le> a \<and> a < check + 8")
    case True
    then have ins: "check + 4 \<le> a" "a < check + 4 + 4" by auto
    have z: "set_check_csum ?ms check 0 = ?z"
      using ins by (simp add: set_check_csum_def store_le32_upd_inside m1 store_store_le32)
    have c1: "check_csum (mem st1) check = ?crc" by (simp add: m1)
    have "check_csum ?ms check \<noteq> check_csum (mem st1) check"
      unfolding check_csum_def using ins neq by (intro load_le32_upd_inside_neq) auto
    then show ?thesis unfolding z c1 .
  next
    case False
    then have outc: "a < check + 4 \<or> check + 4 + 4 \<le> a" by auto
    have "check_csum ?ms check = check_csum (mem st1) check"
      unfolding check_csum_def using outc by (intro load_le32_upd_outside) auto
    then have old: "check_csum ?ms check = ?crc"
      by (simp add: m1)
    have z: "set_check_csum ?ms check 0 = ?z(a := b)"
      using outc by (simp add: set_check_csum_def store_le32_upd_outside m1 store_store_le32)
    have o8: "a < check + 4 \<or> check + 8 \<le> a" using outc by arith
    have za: "?z a = mem st1 a"
      unfolding m1 by (simp only: set_check_csum_other[OF o8])
    have rd: "read_bytes (?z(a := b)) buf ?n = (read_bytes ?z buf ?n)[a - buf := b]"
      using rng by (rule read_bytes_upd)
    have idx: "a - buf < ?n" "buf + (a - buf) = a" using rng by arith+
    have nth: "read_bytes ?z buf ?n ! (a - buf) = ?z a"
      using idx by (simp add: read_bytes_def)
    have len: "a - buf < length (read_bytes ?z buf ?n)"
      using idx by (simp add: read_bytes_def)
    have nb: "b \<noteq> read_bytes ?z buf ?n ! (a - buf)"
      using neq by (simp add: nth za)
    have "crc32 (NOT 0) ((read_bytes ?z buf ?n)[a - buf := b]) \<noteq> crc32 (NOT 0) (read_bytes ?z buf ?n)"
      using len nb by (rule crc32_update_neq)
    then show ?thesis
      unfolding old z ssdfs_crc32_le_def rd by simp
  qed
  have nb: "\<not> (buf = 0 \<and> check_bytes ?ms check \<noteq> 0)" using pre(5) bytes by simp
  show ?thesis
    using is_csum_valid_eq[OF pre(1,2), of "st1\<lparr>mem := ?ms\<rparr>" c buf_size] nb differ
    by (simp add: bytes)
qed

lemma st_hdr_run:
  "case ssdfs_calculate_csum cfg_plain consts_v1 1000 1000 12 st_hdr of
     Returns (Inr u, st1) \<Rightarrow>
       (case is_csum_valid cfg_plain consts_v1 1000 1000 12
               (st1\<lparr>mem := (mem st1)(1000 := flip_bit 2 (mem st1 1000))\<rparr>) of
          Returns (b, st2) \<Rightarrow> b | BUG \<Rightarrow> False | Oops \<Rightarrow> False)
   | Returns (Inl e, st1) \<Rightarrow> False | BUG \<Rightarrow> False | Oops \<Rightarrow> False"
  by code_simp

lemma st_hdr_bytes: "check_bytes (mem st_hdr) 1000 = 8"
  by code_simp

lemma st_sep_run:
  "case ssdfs_calculate_csum cfg_debug consts_v1 1000 2000 4 st_sep of
     Returns (Inr u, st1) \<Rightarrow> True
   | Returns (Inl e, st1) \<Rightarrow> False | BUG \<Rightarrow> False | Oops \<Rightarrow> False"
  by code_simp

lemma st_sep_bytes: "check_bytes (mem st_sep) 1000 = 4"
  by code_simp

lemma st_sep_crc:
  "crc32 (NOT 0) (read_bytes (mem st_sep) 2000 (unat (check_bytes (mem st_sep) 1000))) = 0x49c30432"
  by code_simp

lemma st_sep_flags: "check_flags (mem st_sep) 1000 AND SSDFS_CRC32 consts_v1 \<noteq> 0"
  by code_simp

lemma st_noflag_bytes: "check_bytes (mem st_noflag) 1000 = 4"
  by code_simp

lemma st_noflag_flags: "check_flags (mem st_noflag) 1000 AND SSDFS_CRC32 consts_v1 = 0"
  by code_simp

section \<open>Properties\<close>

text \<open>
  C1 (amended). In a build with CONFIG_SSDFS_DEBUG, for each of the eight wrappers and for
  every choice of offsets, sizes and length: if \<open>src_off + length\<close> does not overflow
  32 bits and exceeds \<open>src_size\<close>, or \<open>dst_off + length\<close> does not overflow 32 bits and
  exceeds \<open>dst_size\<close> (for the two fill operations: the destination condition), the call
  returns \<open>-ERANGE\<close> before any byte is touched: the state is the one before the call
  with one line added to the log. In a build without CONFIG_SSDFS_DEBUG none of the eight
  wrappers checks a bound: for every choice of offsets, sizes and length, each returns 0
  and has run its \<open>memcpy\<close>, \<open>memmove\<close> or \<open>memset\<close> on the addresses as given, whatever the
  sizes are.
\<close>

theorem bounded_copy_range_check:
  "(CONFIG_SSDFS_DEBUG cfg \<longrightarrow>
     ((unat src_off + unat n < 2 ^ 32 \<and> unat src_size < unat src_off + unat n) \<or>
      (unat dst_off + unat n < 2 ^ 32 \<and> unat dst_size < unat dst_off + unat n) \<longrightarrow>
        ssdfs_memcpy cfg dst dst_off dst_size src src_off src_size n st =
          (Inl ERANGE, st\<lparr>klog := klog st @ [WARN]\<rparr>) \<and>
        ssdfs_memcpy_page cfg dst_page dst_off dst_size src_page src_off src_size n st =
          (Inl ERANGE, st\<lparr>klog := klog st @ [ERR]\<rparr>) \<and>
        ssdfs_memcpy_from_page cfg dst dst_off dst_size src_page src_off src_size n st =
          (Inl ERANGE, st\<lparr>klog := klog st @ [ERR]\<rparr>) \<and>
        ssdfs_memcpy_to_page cfg dst_page dst_off dst_size src src_off src_size n st =
          (Inl ERANGE, st\<lparr>klog := klog st @ [ERR]\<rparr>) \<and>
        ssdfs_memmove cfg dst dst_off dst_size src src_off src_size n st =
          (Inl ERANGE, st\<lparr>klog := klog st @ [ERR]\<rparr>) \<and>
        ssdfs_memmove_page cfg dst_page dst_off dst_size src_page src_off src_size n st =
          (Inl ERANGE, st\<lparr>klog := klog st @ [ERR]\<rparr>)) \<and>
     (unat dst_off + unat n < 2 ^ 32 \<and> unat dst_size < unat dst_off + unat n \<longrightarrow>
        ssdfs_memset_page cfg dst_page dst_off dst_size val n st =
          (Inl ERANGE, st\<lparr>klog := klog st @ [ERR]\<rparr>) \<and>
        ssdfs_memzero_page cfg dst_page dst_off dst_size n st =
          (Inl ERANGE, st\<lparr>klog := klog st @ [ERR]\<rparr>))) \<and>
   (\<not> CONFIG_SSDFS_DEBUG cfg \<longrightarrow>
      ssdfs_memcpy cfg dst dst_off dst_size src src_off src_size n st =
        (Inr (), st\<lparr>mem := memcpy (mem st) (dst + unat dst_off) (src + unat src_off) (unat n)\<rparr>) \<and>
      ssdfs_memcpy_page cfg dst_page dst_off dst_size src_page src_off src_size n st =
        (Inr (), st\<lparr>mem := memcpy (mem st) (page_address dst_page + unat dst_off)
                               (page_address src_page + unat src_off) (unat n)\<rparr>) \<and>
      ssdfs_memcpy_from_page cfg dst dst_off dst_size src_page src_off src_size n st =
        (Inr (), st\<lparr>mem := memcpy (mem st) (dst + unat dst_off)
                               (page_address src_page + unat src_off) (unat n)\<rparr>) \<and>
      ssdfs_memcpy_to_page cfg dst_page dst_off dst_size src src_off src_size n st =
        (Inr (), st\<lparr>mem := memcpy (mem st) (page_address dst_page + unat dst_off)
                               (src + unat src_off) (unat n)\<rparr>) \<and>
      ssdfs_memmove cfg dst dst_off dst_size src src_off src_size n st =
        (Inr (), st\<lparr>mem := memmove (mem st) (dst + unat dst_off) (src + unat src_off) (unat n)\<rparr>) \<and>
      ssdfs_memmove_page cfg dst_page dst_off dst_size src_page src_off src_size n st =
        (Inr (), st\<lparr>mem := memcpy (mem st) (page_address dst_page + unat dst_off)
                               (page_address src_page + unat src_off) (unat n)\<rparr>) \<and>
      ssdfs_memset_page cfg dst_page dst_off dst_size val n st =
        (Inr (), st\<lparr>mem := memset (mem st) (page_address dst_page + unat dst_off)
                               (ucast val) (unat n)\<rparr>) \<and>
      ssdfs_memzero_page cfg dst_page dst_off dst_size n st =
        (Inr (), st\<lparr>mem := memset (mem st) (page_address dst_page + unat dst_off) 0 (unat n)\<rparr>))"
proof (intro conjI impI)
  assume dbg: "CONFIG_SSDFS_DEBUG cfg"
  have s: "src_size < src_off + n"
    if "unat src_off + unat n < 2 ^ 32" "unat src_size < unat src_off + unat n"
    using that by (rule u32_sum_gt)
  have d: "dst_size < dst_off + n"
    if "unat dst_off + unat n < 2 ^ 32" "unat dst_size < unat dst_off + unat n"
    using that by (rule u32_sum_gt)
  {
    assume "(unat src_off + unat n < 2 ^ 32 \<and> unat src_size < unat src_off + unat n) \<or>
            (unat dst_off + unat n < 2 ^ 32 \<and> unat dst_size < unat dst_off + unat n)"
    then have viol: "src_size < src_off + n \<or> dst_size < dst_off + n"
      using s d by blast
    from dbg viol show "ssdfs_memcpy cfg dst dst_off dst_size src src_off src_size n st =
          (Inl ERANGE, st\<lparr>klog := klog st @ [WARN]\<rparr>)"
      by (auto simp: ssdfs_memcpy_def printk_def)
    from dbg viol show "ssdfs_memcpy_page cfg dst_page dst_off dst_size src_page src_off src_size n st =
          (Inl ERANGE, st\<lparr>klog := klog st @ [ERR]\<rparr>)"
      by (auto simp: ssdfs_memcpy_page_def printk_def)
    from dbg viol show "ssdfs_memcpy_from_page cfg dst dst_off dst_size src_page src_off src_size n st =
          (Inl ERANGE, st\<lparr>klog := klog st @ [ERR]\<rparr>)"
      by (auto simp: ssdfs_memcpy_from_page_def printk_def)
    from dbg viol show "ssdfs_memcpy_to_page cfg dst_page dst_off dst_size src src_off src_size n st =
          (Inl ERANGE, st\<lparr>klog := klog st @ [ERR]\<rparr>)"
      by (auto simp: ssdfs_memcpy_to_page_def printk_def)
    from dbg viol show "ssdfs_memmove cfg dst dst_off dst_size src src_off src_size n st =
          (Inl ERANGE, st\<lparr>klog := klog st @ [ERR]\<rparr>)"
      by (auto simp: ssdfs_memmove_def printk_def)
    from dbg viol show "ssdfs_memmove_page cfg dst_page dst_off dst_size src_page src_off src_size n st =
          (Inl ERANGE, st\<lparr>klog := klog st @ [ERR]\<rparr>)"
      by (auto simp: ssdfs_memmove_page_def printk_def)
  }
  {
    assume "unat dst_off + unat n < 2 ^ 32 \<and> unat dst_size < unat dst_off + unat n"
    then have viol: "dst_size < dst_off + n" using d by blast
    from dbg viol show "ssdfs_memset_page cfg dst_page dst_off dst_size val n st =
          (Inl ERANGE, st\<lparr>klog := klog st @ [ERR]\<rparr>)"
      by (simp add: ssdfs_memset_page_def printk_def)
    from dbg viol show "ssdfs_memzero_page cfg dst_page dst_off dst_size n st =
          (Inl ERANGE, st\<lparr>klog := klog st @ [ERR]\<rparr>)"
      by (simp add: ssdfs_memzero_page_def printk_def)
  }
next
  assume "\<not> CONFIG_SSDFS_DEBUG cfg"
  then show "ssdfs_memcpy cfg dst dst_off dst_size src src_off src_size n st =
        (Inr (), st\<lparr>mem := memcpy (mem st) (dst + unat dst_off) (src + unat src_off) (unat n)\<rparr>)"
    by (simp add: ssdfs_memcpy_def)
next
  assume "\<not> CONFIG_SSDFS_DEBUG cfg"
  then show "ssdfs_memcpy_page cfg dst_page dst_off dst_size src_page src_off src_size n st =
        (Inr (), st\<lparr>mem := memcpy (mem st) (page_address dst_page + unat dst_off)
                               (page_address src_page + unat src_off) (unat n)\<rparr>)"
    by (simp add: ssdfs_memcpy_page_def memcpy_page_def)
next
  assume "\<not> CONFIG_SSDFS_DEBUG cfg"
  then show "ssdfs_memcpy_from_page cfg dst dst_off dst_size src_page src_off src_size n st =
        (Inr (), st\<lparr>mem := memcpy (mem st) (dst + unat dst_off)
                               (page_address src_page + unat src_off) (unat n)\<rparr>)"
    by (simp add: ssdfs_memcpy_from_page_def memcpy_from_page_def)
next
  assume "\<not> CONFIG_SSDFS_DEBUG cfg"
  then show "ssdfs_memcpy_to_page cfg dst_page dst_off dst_size src src_off src_size n st =
        (Inr (), st\<lparr>mem := memcpy (mem st) (page_address dst_page + unat dst_off)
                               (src + unat src_off) (unat n)\<rparr>)"
    by (simp add: ssdfs_memcpy_to_page_def memcpy_to_page_def)
next
  assume "\<not> CONFIG_SSDFS_DEBUG cfg"
  then show "ssdfs_memmove cfg dst dst_off dst_size src src_off src_size n st =
        (Inr (), st\<lparr>mem := memmove (mem st) (dst + unat dst_off) (src + unat src_off) (unat n)\<rparr>)"
    by (simp add: ssdfs_memmove_def)
next
  assume "\<not> CONFIG_SSDFS_DEBUG cfg"
  then show "ssdfs_memmove_page cfg dst_page dst_off dst_size src_page src_off src_size n st =
        (Inr (), st\<lparr>mem := memcpy (mem st) (page_address dst_page + unat dst_off)
                               (page_address src_page + unat src_off) (unat n)\<rparr>)"
    by (simp add: ssdfs_memmove_page_def memcpy_page_def)
next
  assume "\<not> CONFIG_SSDFS_DEBUG cfg"
  then show "ssdfs_memset_page cfg dst_page dst_off dst_size val n st =
        (Inr (), st\<lparr>mem := memset (mem st) (page_address dst_page + unat dst_off)
                               (ucast val) (unat n)\<rparr>)"
    by (simp add: ssdfs_memset_page_def memset_page_def)
next
  assume "\<not> CONFIG_SSDFS_DEBUG cfg"
  then show "ssdfs_memzero_page cfg dst_page dst_off dst_size n st =
        (Inr (), st\<lparr>mem := memset (mem st) (page_address dst_page + unat dst_off) 0 (unat n)\<rparr>)"
    by (simp add: ssdfs_memzero_page_def memzero_page_def)
qed

text \<open>C1 at sample inputs: eight bytes into a four-byte destination with debugging on;
  the same copy, and a fill across the end of a page, with debugging off.\<close>

theorem bounded_copy_range_check_witness:
  "CONFIG_SSDFS_DEBUG cfg_debug \<and>
   unat (0 :: 32 word) + unat (8 :: 32 word) < 2 ^ 32 \<and>
   unat (4 :: 32 word) < unat (0 :: 32 word) + unat (8 :: 32 word) \<and>
   ssdfs_memcpy cfg_debug 100 0 4 200 0 16 8 st_boot = (Inl ERANGE, st_boot\<lparr>klog := [WARN]\<rparr>) \<and>
   ssdfs_memset_page cfg_debug 1 0 4 255 8 st_boot = (Inl ERANGE, st_boot\<lparr>klog := [ERR]\<rparr>) \<and>
   \<not> CONFIG_SSDFS_DEBUG cfg_plain \<and>
   ssdfs_memcpy cfg_plain 100 0 4 200 0 16 8 st_boot =
     (Inr (), st_boot\<lparr>mem := memcpy (mem st_boot) 100 200 8\<rparr>) \<and>
   ssdfs_memzero_page cfg_plain 1 4090 4096 8 st_boot =
     (Inr (), st_boot\<lparr>mem := memset (mem st_boot) (page_address 1 + 4090) 0 8\<rparr>)"
proof -
  have c: "CONFIG_SSDFS_DEBUG cfg_debug" by (simp add: cfg_debug_def)
  have p: "\<not> CONFIG_SSDFS_DEBUG cfg_plain" by (simp add: cfg_plain_def)
  have h: "unat (0 :: 32 word) + unat (8 :: 32 word) < 2 ^ 32 \<and>
           unat (4 :: 32 word) < unat (0 :: 32 word) + unat (8 :: 32 word)" by simp
  have on: "ssdfs_memcpy cfg_debug 100 0 4 200 0 16 8 st_boot =
              (Inl ERANGE, st_boot\<lparr>klog := klog st_boot @ [WARN]\<rparr>) \<and>
            ssdfs_memset_page cfg_debug 1 0 4 255 8 st_boot =
              (Inl ERANGE, st_boot\<lparr>klog := klog st_boot @ [ERR]\<rparr>)"
    using bounded_copy_range_check[where cfg=cfg_debug and dst_off=0 and n=8 and dst_size=4 and src_off=0
        and src_size=16 and dst=100 and src=200 and st=st_boot and dst_page=1 and val=255] c h
    by blast
  have off1: "ssdfs_memcpy cfg_plain 100 0 4 200 0 16 8 st_boot =
        (Inr (), st_boot\<lparr>mem := memcpy (mem st_boot) (100 + unat (0 :: 32 word))
                                   (200 + unat (0 :: 32 word)) (unat (8 :: 32 word))\<rparr>)"
    using bounded_copy_range_check[where cfg=cfg_plain and dst_off=0 and n=8 and dst_size=4 and src_off=0
        and src_size=16 and dst=100 and src=200 and st=st_boot] p
    by blast
  have off2: "ssdfs_memzero_page cfg_plain 1 4090 4096 8 st_boot =
        (Inr (), st_boot\<lparr>mem := memset (mem st_boot) (page_address 1 + unat (4090 :: 32 word)) 0
                                   (unat (8 :: 32 word))\<rparr>)"
    using bounded_copy_range_check[where cfg=cfg_plain and dst_off=4090 and n=8 and dst_size=4096
        and st=st_boot and dst_page=1] p
    by blast
  have k: "klog st_boot = []" by (simp add: st_boot_def)
  show ?thesis
    using c p h on off1 off2 by (simp add: k)
qed

text \<open>
  C1 as stated fails. Without CONFIG_SSDFS_DEBUG, \<open>ssdfs_memcpy\<close> of eight bytes into a
  four-byte destination returns 0 and overwrites the byte behind the destination, and
  \<open>ssdfs_memset_page\<close> across the end of a page returns 0 and writes into the next page.
  With CONFIG_SSDFS_DEBUG, an offset whose sum with the length wraps around passes the check.
\<close>

theorem bounded_copy_unchecked_counterexample:
  "fst (ssdfs_memcpy cfg_plain 100 0 4 200 0 16 8 st_boot) = Inr () \<and>
   mem (snd (ssdfs_memcpy cfg_plain 100 0 4 200 0 16 8 st_boot)) 104 = 204 \<and>
   mem st_boot 104 = 104 \<and>
   fst (ssdfs_memset_page cfg_plain 1 4090 4096 255 8 st_boot) = Inr () \<and>
   mem (snd (ssdfs_memset_page cfg_plain 1 4090 4096 255 8 st_boot)) (page_address 2) = 255 \<and>
   mem st_boot (page_address 2) = 0 \<and>
   fst (ssdfs_memset_page cfg_debug 1 0xFFFFFFFF 4096 255 2 st_boot) = Inr ()"
  by (simp add: ssdfs_memcpy_def ssdfs_memset_page_def memset_page_def memset_def cfg_plain_def
      cfg_debug_def st_boot_def page_address_def PAGE_SIZE_def memcpy_8)

text \<open>
  C2. For every page vector created with capacity \<open>C\<close> and every sequence of \<open>add\<close> calls
  that all succeed: \<open>count()\<close> is the number of calls and at most \<open>C\<close>, the capacity is
  still \<open>C\<close>, and if the vector is then full a further \<open>add\<close> fails with \<open>-E2BIG\<close>
  (CapacityExceeded) and returns the vector as it was: the count is unchanged and the set
  of handles the vector owns is unchanged, so the passed handle stays with the caller.
\<close>

theorem page_vector_add_capacity:
  assumes "ssdfs_page_vector_create slots_allocated C = Inr v"
      and "add_all v hs = Inr v'"
  shows "unat (ssdfs_page_vector_count v') = length hs \<and>
         unat (ssdfs_page_vector_count v') \<le> unat C \<and>
         capacity v' = C \<and>
         (count v' = capacity v' \<longrightarrow>
            ssdfs_page_vector_add v' h = (Inl E2BIG, v') \<and>
            ssdfs_page_vector_count (snd (ssdfs_page_vector_add v' h)) = ssdfs_page_vector_count v' \<and>
            owned (snd (ssdfs_page_vector_add v' h)) = owned v')"
proof -
  from assms(1) have v: "count v = 0" "capacity v = C"
    by (auto simp: ssdfs_page_vector_create_def split: if_splits)
  then have "count v \<le> capacity v" by simp
  from add_all_ok[OF assms(2) this] v
  have r: "count v' \<le> capacity v'" "capacity v' = C" "unat (count v') = length hs" by auto
  have c: "unat (ssdfs_page_vector_count v') = unat (count v')"
    unfolding ssdfs_page_vector_count_def by (rule unat_ucast_u8_u32)
  show ?thesis
    using r c by (auto simp: ssdfs_page_vector_add_def word_le_nat_alt)
qed

text \<open>C2 at a sample input: capacity 2, two successful adds, a third that fails.\<close>

theorem page_vector_add_capacity_witness:
  "ssdfs_page_vector_create True 2 =
     Inr \<lparr>count = 0, capacity = 2, vec_pages = [NULL, NULL]\<rparr> \<and>
   add_all \<lparr>count = 0, capacity = 2, vec_pages = [NULL, NULL]\<rparr> [Ptr 1, Ptr 2] =
     Inr \<lparr>count = 2, capacity = 2, vec_pages = [Ptr 1, Ptr 2]\<rparr> \<and>
   unat (ssdfs_page_vector_count \<lparr>count = 2, capacity = 2, vec_pages = [Ptr 1, Ptr 2]\<rparr>) = 2 \<and>
   ssdfs_page_vector_add \<lparr>count = 2, capacity = 2, vec_pages = [Ptr 1, Ptr 2]\<rparr> (Ptr 3) =
     (Inl E2BIG, \<lparr>count = 2, capacity = 2, vec_pages = [Ptr 1, Ptr 2]\<rparr>)"
proof -
  have c: "ssdfs_page_vector_create True 2 =
     Inr \<lparr>count = 0, capacity = 2, vec_pages = [NULL, NULL]\<rparr>"
    by code_simp
  have a: "add_all \<lparr>count = 0, capacity = 2, vec_pages = [NULL, NULL]\<rparr> [Ptr 1, Ptr 2] =
     Inr \<lparr>count = 2, capacity = 2, vec_pages = [Ptr 1, Ptr 2]\<rparr>"
    by (simp add: ssdfs_page_vector_add_def)
  from page_vector_add_capacity[OF c a, of "Ptr 3"] c a show ?thesis by simp
qed

text \<open>
  C3. For every invocation of \<open>ssdfs_add_pagevec_page\<close> on a well-formed pagevec the call
  returns. If it fails, the error is \<open>-E2BIG\<close> (the pagevec has no space) or \<open>-ENOMEM\<close>
  (the pagevec has space and the allocator has no frame) and nothing else; the pagevec is
  unchanged and the state is unchanged but for the log, so no page has left the
  allocator and no counter has moved; and the subsystem-tagged variant returns the same,
  its page counter untouched.
\<close>

theorem ssdfs_add_pagevec_page_failure:
  assumes "pagevec_wf pv"
  shows "\<exists>page pv' st'.
     ssdfs_add_pagevec_page cfg (Some pv) st = Returns (page, pv', st') \<and>
     (IS_ERR_OR_NULL page \<longrightarrow>
        (page = ERR_PTR E2BIG \<and> pagevec_space pv = 0 \<or>
         page = ERR_PTR ENOMEM \<and> pagevec_space pv \<noteq> 0 \<and> free_list st = []) \<and>
        pv' = pv \<and> st' = st\<lparr>klog := klog st'\<rparr> \<and>
        ssdfs_name_add_pagevec_page name cfg (Some pv) st = Returns (page, pv', st'))"
proof (cases "pagevec_space pv = 0")
  case True
  then show ?thesis
    by (simp add: ssdfs_add_pagevec_page_def ssdfs_name_add_pagevec_page_def printk_def)
next
  case space: False
  show ?thesis
  proof (cases "free_list st")
    case Nil
    with space show ?thesis
      by (simp add: ssdfs_add_pagevec_page_def ssdfs_name_add_pagevec_page_def
          ssdfs_alloc_page_Nil printk_def)
  next
    case (Cons p ps)
    with space assms show ?thesis
      by (simp add: ssdfs_add_pagevec_page_def ssdfs_alloc_page_Some pagevec_add_wf)
  qed
qed

text \<open>C3 at sample inputs: a full pagevec, and an empty allocator.\<close>

theorem ssdfs_add_pagevec_page_failure_witness:
  "pagevec_wf pv_full \<and>
   ssdfs_add_pagevec_page cfg_debug (Some pv_full) st_boot =
     Returns (ERR_PTR E2BIG, pv_full, st_boot\<lparr>klog := [ERR]\<rparr>) \<and>
   pagevec_wf pv_sample \<and>
   ssdfs_name_add_pagevec_page ''maptbl'' cfg_debug (Some pv_sample) (st_boot\<lparr>free_list := []\<rparr>) =
     Returns (ERR_PTR ENOMEM, pv_sample, st_boot\<lparr>free_list := [], klog := [ERR, ERR]\<rparr>)"
proof -
  have wf: "pagevec_wf pv_full"
    by (simp add: pagevec_wf_def pv_full_def PAGEVEC_SIZE_def)
  have wf2: "pagevec_wf pv_sample"
    by (simp add: pagevec_wf_def pv_sample_def PAGEVEC_SIZE_def)
  have sp: "pagevec_space pv_full = 0" "pagevec_space pv_sample \<noteq> 0"
    by (simp_all add: pagevec_space_def pv_full_def pv_sample_def PAGEVEC_SIZE_def)
  have fl: "free_list (st_boot\<lparr>free_list := []\<rparr>) = []" by simp
  have r1: "ssdfs_add_pagevec_page cfg_debug (Some pv_full) st_boot =
              Returns (ERR_PTR E2BIG, pv_full, printk ERR st_boot)"
    using ssdfs_add_pagevec_page_failure[OF wf, of cfg_debug st_boot "''maptbl''"]
    by (simp add: sp ssdfs_add_pagevec_page_def)
  have r2: "ssdfs_name_add_pagevec_page ''maptbl'' cfg_debug (Some pv_sample)
               (st_boot\<lparr>free_list := []\<rparr>) =
              Returns (ERR_PTR ENOMEM, pv_sample, printk ERR (printk ERR (st_boot\<lparr>free_list := []\<rparr>)))"
    using ssdfs_add_pagevec_page_failure[OF wf2, of cfg_debug "st_boot\<lparr>free_list := []\<rparr>" "''maptbl''"]
    by (simp add: sp ssdfs_add_pagevec_page_def ssdfs_name_add_pagevec_page_def
        ssdfs_alloc_page_Nil[OF fl])
  show ?thesis
    unfolding r1 r2 using wf wf2 by (simp add: printk_def st_boot_def)
qed

text \<open>
  C4 (amended). For every invocation of \<open>ssdfs_alloc_page\<close>: it never returns NULL. On
  success it returns the frame the allocator handed out, with reference count 2 (the 1
  that \<open>alloc_page\<close> sets plus the one \<open>ssdfs_get_page\<close> adds), with every byte of the
  page zero when \<open>gfp_mask\<close> contains \<open>__GFP_ZERO\<close>, and with \<open>ssdfs_allocated_pages\<close>
  one higher when CONFIG_SSDFS_MEMORY_LEAKS_ACCOUNTING is set and unchanged otherwise; the
  subsystem-tagged variant does the same and adds one to the subsystem's page counter.
  On failure it returns \<open>ERR_PTR(-ENOMEM)\<close>, the allocator had no frame, and nothing but
  the log has changed, for the tagged variant too.
\<close>

theorem ssdfs_alloc_page_result:
  "(case ssdfs_alloc_page cfg g st of
      (Ptr p, st') \<Rightarrow>
         free_list st = p # free_list st' \<and>
         page_ref st' p = 2 \<and>
         (g AND GFP_ZERO \<noteq> 0 \<longrightarrow>
            (\<forall>a. page_address p \<le> a \<and> a < page_address p + PAGE_SIZE \<longrightarrow> mem st' a = 0)) \<and>
         ssdfs_allocated_pages st' =
           (if CONFIG_SSDFS_MEMORY_LEAKS_ACCOUNTING cfg
            then ssdfs_allocated_pages st + 1 else ssdfs_allocated_pages st) \<and>
         ssdfs_name_alloc_page name cfg g st =
           (Ptr p, st'\<lparr>ssdfs_name_page_leaks :=
                         (ssdfs_name_page_leaks st)(name := ssdfs_name_page_leaks st name + 1)\<rparr>)
    | (ERR_PTR e, st') \<Rightarrow>
         e = ENOMEM \<and> free_list st = [] \<and> st' = printk ERR st \<and>
         ssdfs_name_alloc_page name cfg g st = (ERR_PTR ENOMEM, printk ERR st)
    | (NULL, st') \<Rightarrow> False)"
proof (cases "free_list st")
  case Nil
  then show ?thesis
    by (simp add: ssdfs_alloc_page_Nil ssdfs_name_alloc_page_def)
next
  case (Cons p ps)
  then show ?thesis
    by (simp add: ssdfs_alloc_page_Some ssdfs_name_alloc_page_def memset_def)
qed

text \<open>The hypotheses of C4 at a sample input: a page request with \<open>__GFP_ZERO\<close> in the
  sample state, and one against an empty allocator.\<close>

theorem ssdfs_alloc_page_result_witness:
  "(GFP_KERNEL OR GFP_ZERO) AND GFP_ZERO \<noteq> 0 \<and>
   page_address 1 \<le> 4100 \<and> 4100 < page_address 1 + PAGE_SIZE \<and>
   (\<exists>st'. ssdfs_alloc_page cfg_debug (GFP_KERNEL OR GFP_ZERO) st_boot = (Ptr 1, st') \<and>
          page_ref st' 1 = 2 \<and> mem st' 4100 = 0 \<and> ssdfs_allocated_pages st' = 1 \<and>
          ssdfs_name_alloc_page ''maptbl'' cfg_debug (GFP_KERNEL OR GFP_ZERO) st_boot =
            (Ptr 1, st'\<lparr>ssdfs_name_page_leaks := (\<lambda>n. 0)(''maptbl'' := 1)\<rparr>)) \<and>
   ssdfs_alloc_page cfg_debug (GFP_KERNEL OR GFP_ZERO) (st_boot\<lparr>free_list := []\<rparr>) =
     (ERR_PTR ENOMEM, st_boot\<lparr>free_list := [], klog := [ERR]\<rparr>)"
proof -
  have z: "(GFP_KERNEL OR GFP_ZERO) AND GFP_ZERO \<noteq> 0"
    by (simp add: GFP_KERNEL_def GFP_ZERO_def)
  have r: "page_address 1 \<le> 4100 \<and> 4100 < page_address 1 + PAGE_SIZE"
    by (simp add: page_address_def PAGE_SIZE_def)
  have fl: "free_list st_boot = 1 # [2]" by (simp add: st_boot_def)
  have a: "ssdfs_alloc_page cfg_debug (GFP_KERNEL OR GFP_ZERO) st_boot =
      (Ptr 1, snd (ssdfs_alloc_page cfg_debug (GFP_KERNEL OR GFP_ZERO) st_boot))"
    by (simp add: ssdfs_alloc_page_Some[OF fl])
  have b: "ssdfs_alloc_page cfg_debug (GFP_KERNEL OR GFP_ZERO) (st_boot\<lparr>free_list := []\<rparr>) =
      (ERR_PTR ENOMEM, snd (ssdfs_alloc_page cfg_debug (GFP_KERNEL OR GFP_ZERO) (st_boot\<lparr>free_list := []\<rparr>)))"
    by (simp add: ssdfs_alloc_page_Nil)
  have e: "ssdfs_alloc_page cfg_debug (GFP_KERNEL OR GFP_ZERO) (st_boot\<lparr>free_list := []\<rparr>) =
      (ERR_PTR ENOMEM, st_boot\<lparr>free_list := [], klog := [ERR]\<rparr>)"
    using ssdfs_alloc_page_result[where cfg=cfg_debug and g="GFP_KERNEL OR GFP_ZERO" and st="st_boot\<lparr>free_list := []\<rparr>" and name="''maptbl''"]
    by (subst b, subst (asm) b) (simp add: printk_def st_boot_def)
  show ?thesis
    using ssdfs_alloc_page_result[where cfg=cfg_debug and g="GFP_KERNEL OR GFP_ZERO" and st=st_boot and name="''maptbl''"] z r e
    by (subst a, subst a, subst (asm) a) (simp add: cfg_debug_def st_boot_def)
qed

text \<open>
  C4 as stated fails: a successful \<open>ssdfs_alloc_page\<close> leaves the reference count at 2,
  not 1; without \<open>__GFP_ZERO\<close> the page keeps its old bytes; and without
  CONFIG_SSDFS_MEMORY_LEAKS_ACCOUNTING no counter moves.
\<close>

theorem ssdfs_alloc_page_refcount_counterexample:
  "fst (ssdfs_alloc_page cfg_debug (GFP_KERNEL OR GFP_ZERO) st_boot) = Ptr 1 \<and>
   page_ref (snd (ssdfs_alloc_page cfg_debug (GFP_KERNEL OR GFP_ZERO) st_boot)) 1 = 2 \<and>
   fst (ssdfs_alloc_page cfg_debug GFP_KERNEL st_boot) = Ptr 1 \<and>
   mem (snd (ssdfs_alloc_page cfg_debug GFP_KERNEL st_boot)) (page_address 1 + 1) = 1 \<and>
   fst (ssdfs_alloc_page cfg_plain (GFP_KERNEL OR GFP_ZERO) st_boot) = Ptr 1 \<and>
   ssdfs_allocated_pages (snd (ssdfs_alloc_page cfg_plain (GFP_KERNEL OR GFP_ZERO) st_boot)) =
     ssdfs_allocated_pages st_boot"
  by (simp add: ssdfs_alloc_page_def alloc_page_def ssdfs_get_page_def get_page_def
      cfg_debug_def cfg_plain_def st_boot_def GFP_KERNEL_def GFP_ZERO_def page_address_def
      PAGE_SIZE_def Let_def)

text \<open>
  C5 (amended). \<open>ssdfs_free_page\<close> on a page pointer always returns; it never stops the
  kernel, whatever the lock flag and the reference count are. It logs nothing but
  warnings: one if the page is locked and CONFIG_SSDFS_MEMORY_LEAKS_ACCOUNTING is set, one
  from \<open>ssdfs_put_page\<close> if the count after the put is below 1, and one if the count
  after the put (the count at the point of release) is not exactly 1. It drops two
  references, and it decrements \<open>ssdfs_allocated_pages\<close> exactly when
  CONFIG_SSDFS_MEMORY_LEAKS_ACCOUNTING is set. The frame goes back to the allocator only
  if one of the two drops brings the count to zero, that is if the count was 1 or 2 at
  the call; a page that is still referenced afterwards stays allocated.
\<close>

theorem ssdfs_free_page_effect:
  "\<exists>st' ws.
     ssdfs_free_page cfg (Ptr p) st = Returns st' \<and>
     klog st' = klog st @ ws \<and> set ws \<subseteq> {WARN} \<and>
     (page_ref st p - 1 \<noteq> 1 \<longrightarrow> ws \<noteq> []) \<and>
     (CONFIG_SSDFS_MEMORY_LEAKS_ACCOUNTING cfg \<and> page_locked st p \<longrightarrow> ws \<noteq> []) \<and>
     (page_ref st p - 1 = 1 \<and>
      \<not> (CONFIG_SSDFS_MEMORY_LEAKS_ACCOUNTING cfg \<and> page_locked st p) \<longrightarrow> ws = []) \<and>
     page_ref st' p = page_ref st p - 2 \<and>
     ssdfs_allocated_pages st' =
       (if CONFIG_SSDFS_MEMORY_LEAKS_ACCOUNTING cfg
        then ssdfs_allocated_pages st - 1 else ssdfs_allocated_pages st) \<and>
     free_list st' =
       (if page_ref st p - 1 = 0 \<or> page_ref st p - 1 = 1 then p # free_list st else free_list st)"
proof -
  let ?ws = "(if CONFIG_SSDFS_MEMORY_LEAKS_ACCOUNTING cfg \<and> page_locked st p then [WARN] else [])
          @ (if sint (page_ref st p - 1) < 1 then [WARN] else [])
          @ (if page_ref st p - 1 \<noteq> 1 then [WARN] else [])"
  have only: "set ?ws \<subseteq> {WARN}" by auto
  have some: "page_ref st p - 1 \<noteq> 1 \<longrightarrow> ?ws \<noteq> []" by simp
  have lock: "CONFIG_SSDFS_MEMORY_LEAKS_ACCOUNTING cfg \<and> page_locked st p \<longrightarrow> ?ws \<noteq> []" by simp
  have none: "page_ref st p - 1 = 1 \<and>
      \<not> (CONFIG_SSDFS_MEMORY_LEAKS_ACCOUNTING cfg \<and> page_locked st p) \<longrightarrow> ?ws = []"
    by auto
  have fl: "(if page_ref st p = 1 \<or> page_ref st p = 2 then [p] else []) @ free_list st =
      (if page_ref st p - 1 = 0 \<or> page_ref st p - 1 = 1 then p # free_list st else free_list st)"
    by (simp add: word_dec_eq_1_iff)
  define st' where "st' = st\<lparr>
       klog := klog st @ ?ws,
       page_ref := (page_ref st)(p := page_ref st p - 2),
       ssdfs_allocated_pages :=
          (if CONFIG_SSDFS_MEMORY_LEAKS_ACCOUNTING cfg
           then ssdfs_allocated_pages st - 1 else ssdfs_allocated_pages st),
       free_list := (if page_ref st p = 1 \<or> page_ref st p = 2 then [p] else []) @ free_list st\<rparr>"
  have ret: "ssdfs_free_page cfg (Ptr p) st = Returns st'"
    unfolding st'_def by (rule ssdfs_free_page_Ptr)
  have log: "klog st' = klog st @ ?ws"
    by (simp add: st'_def)
  have ref: "page_ref st' p = page_ref st p - 2"
    by (simp add: st'_def)
  have cnt: "ssdfs_allocated_pages st' =
       (if CONFIG_SSDFS_MEMORY_LEAKS_ACCOUNTING cfg
        then ssdfs_allocated_pages st - 1 else ssdfs_allocated_pages st)"
    by (simp add: st'_def)
  have free: "free_list st' =
       (if page_ref st p - 1 = 0 \<or> page_ref st p - 1 = 1 then p # free_list st else free_list st)"
    unfolding fl[symmetric] by (simp add: st'_def)
  from ret log only some lock none ref cnt free show ?thesis
    by blast
qed

text \<open>C5 at a sample input: a locked page with three references, accounting on.\<close>

theorem ssdfs_free_page_effect_witness:
  "page_ref (st_boot\<lparr>page_ref := (\<lambda>p. 0)(5 := 3), page_locked := (\<lambda>p. False)(5 := True),
                      ssdfs_allocated_pages := 1\<rparr>) 5 - 1 \<noteq> 1 \<and>
   CONFIG_SSDFS_MEMORY_LEAKS_ACCOUNTING cfg_debug \<and>
   page_locked (st_boot\<lparr>page_ref := (\<lambda>p. 0)(5 := 3), page_locked := (\<lambda>p. False)(5 := True),
                         ssdfs_allocated_pages := 1\<rparr>) 5 \<and>
   (\<exists>st' ws.
      ssdfs_free_page cfg_debug (Ptr 5)
        (st_boot\<lparr>page_ref := (\<lambda>p. 0)(5 := 3), page_locked := (\<lambda>p. False)(5 := True),
                  ssdfs_allocated_pages := 1\<rparr>) = Returns st' \<and>
      klog st' = ws \<and> set ws \<subseteq> {WARN} \<and> ws \<noteq> [] \<and>
      page_ref st' 5 = 1 \<and> ssdfs_allocated_pages st' = 0 \<and> free_list st' = [1, 2])"
proof -
  let ?st = "st_boot\<lparr>page_ref := (\<lambda>p. 0)(5 := 3), page_locked := (\<lambda>p. False)(5 := True),
                     ssdfs_allocated_pages := 1\<rparr>"
  have h: "page_ref ?st 5 - 1 \<noteq> 1" "CONFIG_SSDFS_MEMORY_LEAKS_ACCOUNTING cfg_debug"
          "page_locked ?st 5"
    by (simp_all add: cfg_debug_def)
  have v: "page_ref ?st 5 - 2 = 1" "ssdfs_allocated_pages ?st - 1 = 0" "klog ?st = []"
          "free_list ?st = [1, 2]" "page_ref ?st 5 - 1 \<noteq> 0"
    by (simp_all add: st_boot_def)
  from ssdfs_free_page_effect[of cfg_debug 5 ?st] obtain st' ws where
    r: "ssdfs_free_page cfg_debug (Ptr 5) ?st = Returns st'"
       "klog st' = klog ?st @ ws" "set ws \<subseteq> {WARN}"
       "page_ref ?st 5 - 1 \<noteq> 1 \<longrightarrow> ws \<noteq> []"
       "page_ref st' 5 = page_ref ?st 5 - 2"
       "ssdfs_allocated_pages st' =
          (if CONFIG_SSDFS_MEMORY_LEAKS_ACCOUNTING cfg_debug
           then ssdfs_allocated_pages ?st - 1 else ssdfs_allocated_pages ?st)"
       "free_list st' =
          (if page_ref ?st 5 - 1 = 0 \<or> page_ref ?st 5 - 1 = 1
           then 5 # free_list ?st else free_list ?st)"
    by blast
  have "klog st' = ws" using r(2) v(3) by simp
  moreover have "ws \<noteq> []" using r(4) h(1) by blast
  moreover have "page_ref st' 5 = 1" using r(5) v(1) by simp
  moreover have "ssdfs_allocated_pages st' = 0" using r(6) h(2) v(2) by simp
  moreover have "free_list st' = [1, 2]" using r(7) h(1) v(4,5) by simp
  ultimately show ?thesis using h r(1,3) by blast
qed

text \<open>
  C5 as stated fails: freeing a page that holds three references warns, but the frame does
  not go back to the allocator; one reference is left.
\<close>

theorem ssdfs_free_page_referenced_counterexample:
  "\<exists>st'. ssdfs_free_page cfg_debug (Ptr 5) (st_boot\<lparr>page_ref := (\<lambda>p. 0)(5 := 3)\<rparr>) = Returns st' \<and>
         5 \<notin> set (free_list st') \<and> page_ref st' 5 = 1"
  by (simp add: ssdfs_free_page_def ssdfs_put_page_def put_page_def put_page_testzero_def
      free_the_page_def free_pages_order0_def printk_def Let_def cfg_debug_def st_boot_def)

text \<open>
  C6 (amended). For every record and buffer on which \<open>ssdfs_calculate_csum\<close> succeeds,
  \<open>is_csum_valid\<close> on the memory it leaves returns true (and leaves the state as it is).
  If afterwards a single bit is flipped in a byte of the covered range (the first
  \<open>bytes\<close> bytes of the buffer) that is not one of the two bytes of the record's own
  length field, \<open>is_csum_valid\<close> returns false. The record may lie anywhere, also inside
  the buffer.
\<close>

theorem csum_verify_after_calculate:
  assumes "ssdfs_calculate_csum cfg c check buf buf_size st = Returns (Inr (), st1)"
  shows "is_csum_valid cfg c check buf buf_size st1 = Returns (True, st1) \<and>
         (\<forall>a k. buf \<le> a \<and> a < buf + unat (check_bytes (mem st) check) \<and>
                (a < check \<or> check + 2 \<le> a) \<and> k < 8 \<longrightarrow>
            (\<exists>st2. is_csum_valid cfg c check buf buf_size
                     (st1\<lparr>mem := (mem st1)(a := flip_bit k (mem st1 a))\<rparr>) =
                   Returns (False, st2)))"
proof -
  from ssdfs_calculate_csum_success[OF assms] have
    pre: "check \<noteq> 0" "CONFIG_SSDFS_DEBUG cfg \<longrightarrow> buf \<noteq> 0"
         "\<not> buf_size < ucast (check_bytes (mem st) check)"
         "check_flags (mem st) check AND SSDFS_CRC32 c \<noteq> 0"
         "\<not> (buf = 0 \<and> check_bytes (mem st) check \<noteq> 0)"
    and st1: "st1 = st\<lparr>mem := set_check_csum (mem st) check
                 (ssdfs_crc32_le (set_check_csum (mem st) check 0) buf
                    (unat (check_bytes (mem st) check)))\<rparr>"
    by blast+
  have nb: "\<not> (buf = 0 \<and> check_bytes (mem st1) check \<noteq> 0)"
    using pre(5) by (simp add: st1)
  have first: "is_csum_valid cfg c check buf buf_size st1 = Returns (True, st1)"
    using is_csum_valid_eq[OF pre(1,2) nb, of c buf_size] pre(3,4)
    by (simp add: st1)
  show ?thesis
    using first verify_after_change[OF assms] flip_bit_neq by blast
qed

text \<open>C6 at a sample input: a record that describes a separate four-byte buffer; bit 2
  of the third byte of the buffer is flipped.\<close>

theorem csum_verify_after_calculate_witness:
  "\<exists>st1.
     ssdfs_calculate_csum cfg_debug consts_v1 1000 2000 4 st_sep = Returns (Inr (), st1) \<and>
     is_csum_valid cfg_debug consts_v1 1000 2000 4 st1 = Returns (True, st1) \<and>
     (\<exists>st2. is_csum_valid cfg_debug consts_v1 1000 2000 4
              (st1\<lparr>mem := (mem st1)(2002 := flip_bit 2 (mem st1 2002))\<rparr>) =
            Returns (False, st2))"
proof -
  obtain st1 where ok: "ssdfs_calculate_csum cfg_debug consts_v1 1000 2000 4 st_sep = Returns (Inr (), st1)"
    using st_sep_run by (auto split: outcome.splits sum.splits prod.splits)
  have rng: "(2000::nat) \<le> 2002 \<and> 2002 < 2000 + unat (check_bytes (mem st_sep) 1000) \<and>
        ((2002::nat) < 1000 \<or> 1000 + 2 \<le> (2002::nat)) \<and> (2::nat) < 8"
    by (simp add: st_sep_bytes)
  from csum_verify_after_calculate[OF ok] rng ok show ?thesis by blast
qed

text \<open>
  C6 as stated fails where the check record lies inside the range it covers: in
  \<open>st_hdr\<close> the record is the head of the buffer and covers 8 bytes; flipping bit 2 of the
  first byte, which is inside the covered range, turns the declared length into 12, and
  the CRC over those 12 bytes equals the stored checksum: \<open>is_csum_valid\<close> returns true.
\<close>

theorem csum_length_flip_counterexample:
  "\<exists>st1 st2.
     ssdfs_calculate_csum cfg_plain consts_v1 1000 1000 12 st_hdr = Returns (Inr (), st1) \<and>
     check_bytes (mem st_hdr) 1000 = 8 \<and>
     is_csum_valid cfg_plain consts_v1 1000 1000 12
        (st1\<lparr>mem := (mem st1)(1000 := flip_bit 2 (mem st1 1000))\<rparr>) = Returns (True, st2)"
proof (cases "ssdfs_calculate_csum cfg_plain consts_v1 1000 1000 12 st_hdr")
  case (Returns p)
  obtain e st1 where p: "p = (e, st1)" by (cases p)
  show ?thesis
  proof (cases e)
    case (Inl x)
    with st_hdr_run Returns p show ?thesis by simp
  next
    case (Inr u)
    with st_hdr_run Returns p have
      "case is_csum_valid cfg_plain consts_v1 1000 1000 12
               (st1\<lparr>mem := (mem st1)(1000 := flip_bit 2 (mem st1 1000))\<rparr>) of
          Returns (b, st2) \<Rightarrow> b | BUG \<Rightarrow> False | Oops \<Rightarrow> False" by simp
    then obtain st2 where
      "is_csum_valid cfg_plain consts_v1 1000 1000 12
               (st1\<lparr>mem := (mem st1)(1000 := flip_bit 2 (mem st1 1000))\<rparr>) = Returns (True, st2)"
      by (auto split: outcome.splits prod.splits)
    with Returns p Inr st_hdr_bytes show ?thesis by auto
  qed
next
  case BUG
  with st_hdr_run show ?thesis by simp
next
  case Oops
  with st_hdr_run show ?thesis by simp
qed

text \<open>
  C7. For every record, buffer (both not NULL) and buffer size, \<open>is_csum_valid\<close> returns
  a boolean; it does not stop with \<open>BUG\<close> or \<open>Oops\<close>. The boolean is false when the
  declared length exceeds \<open>buf_size\<close> and when the flags do not contain SSDFS_CRC32; it is
  true exactly when neither is the case and the stored checksum equals the computed one.
  In every case the memory after the call, and so the stored checksum field, is the same
  as before.
\<close>

theorem is_csum_valid_returns:
  assumes "check \<noteq> 0" "buf \<noteq> 0"
  shows "\<exists>b st'. is_csum_valid cfg c check buf buf_size st = Returns (b, st') \<and>
           mem st' = mem st \<and>
           check_csum (mem st') check = check_csum (mem st) check \<and>
           (buf_size < ucast (check_bytes (mem st) check) \<longrightarrow> \<not> b) \<and>
           (check_flags (mem st) check AND SSDFS_CRC32 c = 0 \<longrightarrow> \<not> b) \<and>
           b = (\<not> buf_size < ucast (check_bytes (mem st) check) \<and>
                check_flags (mem st) check AND SSDFS_CRC32 c \<noteq> 0 \<and>
                check_csum (mem st) check =
                  ssdfs_crc32_le (set_check_csum (mem st) check 0) buf
                    (unat (check_bytes (mem st) check)))"
  using assms by (simp add: is_csum_valid_eq printk_def)

text \<open>C7 at a sample input: a record whose declared length 4 exceeds the buffer size 2.\<close>

theorem is_csum_valid_returns_witness:
  "(1000 :: nat) \<noteq> 0 \<and> (2000 :: nat) \<noteq> 0 \<and>
   (\<exists>st'. is_csum_valid cfg_debug consts_v1 1000 2000 2 st_sep = Returns (False, st') \<and>
          mem st' = mem st_sep)"
proof -
  have n: "(1000 :: nat) \<noteq> 0" "(2000 :: nat) \<noteq> 0" by simp_all
  have s: "(2 :: 64 word) < ucast (check_bytes (mem st_sep) 1000)"
    by (simp add: st_sep_bytes)
  from is_csum_valid_returns[OF n, of cfg_debug consts_v1 2 st_sep] s show ?thesis by auto
qed

text \<open>
  C8 (amended). For every record and buffer (both not NULL): \<open>ssdfs_calculate_csum\<close> fails
  with \<open>-EINVAL\<close> when the declared length exceeds \<open>buf_size\<close>, and with the same
  \<open>-EINVAL\<close> when the flags do not contain SSDFS_CRC32; on either failure nothing but the
  log changes. Otherwise it returns 0, changes nothing but the four bytes of the record's
  checksum field, and the field then holds the CRC32 (seed \<open>~0\<close>) over the declared length
  of the buffer, read with the checksum field set to zero; when the field lies outside
  the covered bytes this is the CRC32 over the buffer as it was.
\<close>

theorem ssdfs_calculate_csum_result:
  assumes "check \<noteq> 0" "buf \<noteq> 0"
  shows
   "(buf_size < ucast (check_bytes (mem st) check) \<or>
     check_flags (mem st) check AND SSDFS_CRC32 c = 0 \<longrightarrow>
       ssdfs_calculate_csum cfg c check buf buf_size st =
         Returns (Inl EINVAL, st\<lparr>klog := klog st @ [ERR]\<rparr>)) \<and>
    (\<not> buf_size < ucast (check_bytes (mem st) check) \<and>
     check_flags (mem st) check AND SSDFS_CRC32 c \<noteq> 0 \<longrightarrow>
       (\<exists>st'. ssdfs_calculate_csum cfg c check buf buf_size st = Returns (Inr (), st') \<and>
          st' = st\<lparr>mem := mem st'\<rparr> \<and>
          (\<forall>a. a < check + 4 \<or> check + 8 \<le> a \<longrightarrow> mem st' a = mem st a) \<and>
          check_csum (mem st') check =
            crc32 (NOT 0) (read_bytes (set_check_csum (mem st) check 0) buf
                             (unat (check_bytes (mem st) check))) \<and>
          (check + 8 \<le> buf \<or> buf + unat (check_bytes (mem st) check) \<le> check + 4 \<longrightarrow>
             check_csum (mem st') check =
               crc32 (NOT 0) (read_bytes (mem st) buf (unat (check_bytes (mem st) check))))))"
  using assms
  by (auto simp: ssdfs_calculate_csum_eq printk_def set_check_csum_other ssdfs_crc32_le_def
      read_bytes_set_csum_disjoint)

text \<open>C8 at a sample input: the same record with buffer sizes 2 and 4.\<close>

theorem ssdfs_calculate_csum_result_witness:
  "(1000 :: nat) \<noteq> 0 \<and> (2000 :: nat) \<noteq> 0 \<and>
   ssdfs_calculate_csum cfg_debug consts_v1 1000 2000 2 st_sep =
     Returns (Inl EINVAL, st_sep\<lparr>klog := klog st_sep @ [ERR]\<rparr>) \<and>
   (\<exists>st'. ssdfs_calculate_csum cfg_debug consts_v1 1000 2000 4 st_sep = Returns (Inr (), st') \<and>
          check_csum (mem st') 1000 = 0x49c30432)"
proof -
  have n: "(1000 :: nat) \<noteq> 0" "(2000 :: nat) \<noteq> 0" by simp_all
  have s: "(2 :: 64 word) < ucast (check_bytes (mem st_sep) 1000)"
          "\<not> (4 :: 64 word) < ucast (check_bytes (mem st_sep) 1000)"
          "(1000 :: nat) + 8 \<le> 2000"
    by (simp_all add: st_sep_bytes)
  from ssdfs_calculate_csum_result[OF n, of 2 st_sep consts_v1 cfg_debug] s(1)
  have a: "ssdfs_calculate_csum cfg_debug consts_v1 1000 2000 2 st_sep =
     Returns (Inl EINVAL, st_sep\<lparr>klog := klog st_sep @ [ERR]\<rparr>)" by blast
  from ssdfs_calculate_csum_result[OF n, of 4 st_sep consts_v1 cfg_debug] s(2,3) st_sep_flags
  have b: "\<exists>st'. ssdfs_calculate_csum cfg_debug consts_v1 1000 2000 4 st_sep = Returns (Inr (), st') \<and>
          check_csum (mem st') 1000 =
            crc32 (NOT 0) (read_bytes (mem st_sep) 2000 (unat (check_bytes (mem st_sep) 1000)))"
    by blast
  show ?thesis using a b[unfolded st_sep_crc] n by blast
qed

text \<open>
  C8 as stated fails: unsupported flags do not give an error kind of their own. A record
  whose length exceeds the buffer and a record without the CRC32 flag both get \<open>-EINVAL\<close>.
\<close>

theorem ssdfs_calculate_csum_errno_counterexample:
  "\<exists>st1 st2.
     ssdfs_calculate_csum cfg_plain consts_v1 1000 2000 2 st_sep = Returns (Inl EINVAL, st1) \<and>
     (2 :: 64 word) < ucast (check_bytes (mem st_sep) 1000) \<and>
     ssdfs_calculate_csum cfg_plain consts_v1 1000 2000 4 st_noflag = Returns (Inl EINVAL, st2) \<and>
     \<not> (4 :: 64 word) < ucast (check_bytes (mem st_noflag) 1000) \<and>
     check_flags (mem st_noflag) 1000 AND SSDFS_CRC32 consts_v1 = 0"
proof -
  have n: "(1000 :: nat) \<noteq> 0" "CONFIG_SSDFS_DEBUG cfg_plain \<longrightarrow> (2000 :: nat) \<noteq> 0" by simp_all
  show ?thesis
    by (simp add: ssdfs_calculate_csum_eq[OF n] st_sep_bytes st_noflag_bytes st_noflag_flags)
qed

text \<open>
  C9. For every signature, \<open>is_ssdfs_magic_valid\<close> returns: it returns true exactly when
  the magic field equals the supported magic value and both the major and the minor
  version are at most the supported major and minor revision, and false in every other
  case; it never stops with \<open>BUG\<close> or \<open>Oops\<close>.
\<close>

theorem is_ssdfs_magic_valid_iff:
  "\<exists>st'. is_ssdfs_magic_valid cfg c (Some m) st =
      Returns (common m = SSDFS_SUPER_MAGIC c \<and>
               uint (major m) \<le> SSDFS_MAJOR_REVISION c \<and>
               uint (minor m) \<le> SSDFS_MINOR_REVISION c, st')"
  by (auto simp: is_ssdfs_magic_valid_def)

text \<open>
  C10. \<open>ssdfs_kfree\<close>, \<open>ssdfs_kvfree\<close> and \<open>ssdfs_free_page\<close> (plain and tagged) called with
  NULL return with the state as it was: nothing is freed and no counter changes.
  \<open>ssdfs_pagevec_release\<close> with a NULL pagevec does the same. On a well-formed pagevec
  whose occupied slots hold NULL or pages, it returns; it has freed exactly the
  non-NULL pages in slot order, the NULL slots contributing nothing, and it leaves the
  occupied slots NULL and \<open>nr = 0\<close>.
\<close>

theorem free_null_tolerant:
  "ssdfs_kfree cfg 0 st = st \<and>
   ssdfs_kvfree cfg 0 st = st \<and>
   ssdfs_free_page cfg NULL st = Returns st \<and>
   ssdfs_name_free_page name cfg NULL st = Returns st \<and>
   ssdfs_pagevec_release cfg None st = Returns (None, st) \<and>
   (pagevec_wf pv \<and> (\<forall>j e. j < unat (nr pv) \<longrightarrow> pages pv ! j \<noteq> ERR_PTR e) \<longrightarrow>
      ssdfs_pagevec_release cfg (Some pv) st =
        Returns (Some (pv\<lparr>nr := 0,
                         pages := replicate (unat (nr pv)) NULL @ drop (unat (nr pv)) (pages pv)\<rparr>),
                 foldl (\<lambda>s q. case ssdfs_free_page cfg q s of
                                  Returns s' \<Rightarrow> s' | BUG \<Rightarrow> s | Oops \<Rightarrow> s)
                   st (filter (\<lambda>q. q \<noteq> NULL) (take (unat (nr pv)) (pages pv)))))"
proof -
  have rel: "ssdfs_pagevec_release cfg (Some pv) st =
        Returns (Some (pv\<lparr>nr := 0,
                         pages := replicate (unat (nr pv)) NULL @ drop (unat (nr pv)) (pages pv)\<rparr>),
                 foldl (\<lambda>s q. case ssdfs_free_page cfg q s of
                                  Returns s' \<Rightarrow> s' | BUG \<Rightarrow> s | Oops \<Rightarrow> s)
                   st (filter (\<lambda>q. q \<noteq> NULL) (take (unat (nr pv)) (pages pv))))"
    if wf: "pagevec_wf pv" and ok: "\<forall>j e. j < unat (nr pv) \<longrightarrow> pages pv ! j \<noteq> ERR_PTR e"
  proof -
    have len: "unat (nr pv) \<le> length (pages pv)"
      using wf by (simp add: pagevec_wf_def)
    have ok0: "\<forall>j. 0 \<le> j \<and> j < unat (nr pv) \<longrightarrow> (\<forall>e. pages pv ! j \<noteq> ERR_PTR e)"
      using ok by simp
    show ?thesis
      using release_loop[OF len ok0, of cfg st]
      by (simp add: ssdfs_pagevec_release_def pagevec_reinit_def)
  qed
  show ?thesis
    using rel
    by (simp add: ssdfs_kfree_def ssdfs_kvfree_def ssdfs_free_page_def ssdfs_name_free_page_def
        ssdfs_pagevec_release_def)
qed

text \<open>C10 at a sample input: a pagevec with pages in slots 0 and 2 and NULL in slot 1.\<close>

theorem free_null_tolerant_witness:
  "ssdfs_pagevec_release cfg_plain (Some pv_sample)
       (st_boot\<lparr>page_ref := (\<lambda>p. 0)(5 := 2, 6 := 2)\<rparr>) =
     Returns (Some \<lparr>nr = 0, pages = [NULL, NULL, NULL] @ replicate 12 NULL\<rparr>,
              st_boot\<lparr>page_ref := (\<lambda>p. 0)(5 := 0, 6 := 0), free_list := [6, 5, 1, 2]\<rparr>)"
proof -
  have wf: "pagevec_wf pv_sample"
    by (simp add: pagevec_wf_def pv_sample_def PAGEVEC_SIZE_def)
  have n: "unat (nr pv_sample) = Suc (Suc (Suc 0))"
    by (simp add: pv_sample_def)
  have ok: "\<forall>j e. j < unat (nr pv_sample) \<longrightarrow> pages pv_sample ! j \<noteq> ERR_PTR e"
    unfolding n by (auto simp: pv_sample_def less_Suc_eq)
  have eq: "ssdfs_pagevec_release cfg_plain (Some pv_sample)
       (st_boot\<lparr>page_ref := (\<lambda>p. 0)(5 := 2, 6 := 2)\<rparr>) =
        Returns (Some (pv_sample\<lparr>nr := 0,
                         pages := replicate (unat (nr pv_sample)) NULL @ drop (unat (nr pv_sample)) (pages pv_sample)\<rparr>),
                 foldl (\<lambda>s q. case ssdfs_free_page cfg_plain q s of
                                  Returns s' \<Rightarrow> s' | BUG \<Rightarrow> s | Oops \<Rightarrow> s)
                   (st_boot\<lparr>page_ref := (\<lambda>p. 0)(5 := 2, 6 := 2)\<rparr>)
                   (filter (\<lambda>q. q \<noteq> NULL) (take (unat (nr pv_sample)) (pages pv_sample))))"
    using free_null_tolerant[where pv=pv_sample and cfg=cfg_plain] wf ok by blast
  show ?thesis
    unfolding eq n
    by (simp add: pv_sample_def ssdfs_free_page_Ptr cfg_plain_def st_boot_def fun_upd_twist)
qed

end
